theory Spec2Isabelle
  imports Main
begin

section \<open>Strings as the source uses them (util.ts)\<close>

text \<open>
  JavaScript strings are modelled as \<open>string\<close> (lists of characters). A string is
  truthy exactly when it is not empty.
\<close>

fun startsWith :: "string \<Rightarrow> string \<Rightarrow> bool" where
  "startsWith s [] = True"
| "startsWith [] (p # ps) = False"
| "startsWith (c # cs) (p # ps) = (c = p \<and> startsWith cs ps)"

definition endsWith :: "string \<Rightarrow> string \<Rightarrow> bool" where
  "endsWith s p = startsWith (rev s) (rev p)"

fun includes_str :: "string \<Rightarrow> string \<Rightarrow> bool" where
  "includes_str [] p = (p = [])"
| "includes_str (c # cs) p = (startsWith (c # cs) p \<or> includes_str cs p)"

text \<open>\<open>String.prototype.replace\<close> with a string pattern: only the first occurrence.\<close>

fun replace :: "string \<Rightarrow> string \<Rightarrow> string \<Rightarrow> string" where
  "replace [] pat rep = (if pat = [] then rep else [])"
| "replace (c # cs) pat rep =
     (if startsWith (c # cs) pat then rep @ drop (length pat) (c # cs)
      else c # replace cs pat rep)"

text \<open>\<open>Array.prototype.join\<close>.\<close>

fun join :: "string \<Rightarrow> string list \<Rightarrow> string" where
  "join sep [] = []"
| "join sep [x] = x"
| "join sep (x # y # ys) = x @ sep @ join sep (y # ys)"

subsection \<open>quote, unquote, normalizePath\<close>

text \<open>The table \<open>QUOTES\<close>: double quote, single quote, backtick.\<close>

definition QUOTES :: "char \<Rightarrow> bool" where
  "QUOTES c = (c = CHR 0x22 \<or> c = CHR 0x27 \<or> c = CHR 0x60)"

text \<open>
  \<open>s[0]\<close> and \<open>s[s.length - 1]\<close> are \<open>undefined\<close> on the empty string, and
  \<open>QUOTES[undefined]\<close> is falsy: both tests are false there.
\<close>

definition unquote :: "string \<Rightarrow> string" where
  "unquote s =
     (let s1 = (if s \<noteq> [] \<and> QUOTES (hd s) then tl s else s);
          s2 = (if s1 \<noteq> [] \<and> QUOTES (last s1) then butlast s1 else s1)
      in s2)"

text \<open>\<open>isWindows()\<close> reads the platform; it is a parameter here.\<close>

definition quote :: "bool \<Rightarrow> string \<Rightarrow> string" where
  "quote isWindows s = (let q = (if isWindows then [CHR 0x22] else [CHR 0x27]) in q @ s @ q)"

definition normalizePath :: "bool \<Rightarrow> string \<Rightarrow> string" where
  "normalizePath isWindows p =
     (if isWindows then map (\<lambda>c. if c = CHR 0x5C then CHR ''/'' else c) p else p)"

section \<open>Test nodes\<close>

text \<open>
  \<open>PythonTestNode\<close> of parser.ts. The interface has no \<open>endLine\<close>, yet
  \<open>findFullTestName\<close> takes \<open>any[]\<close> and reads \<open>element.endLine\<close>, so the field is
  part of the model (\<open>None\<close> when absent). A missing \<open>children\<close> is the empty list:
  every reader of the field treats the two alike. The fields \<open>type\<close> and \<open>class\<close> are
  \<open>ntype\<close> and \<open>nclass\<close>.
\<close>

datatype node = Node
  (name: string)
  (line: int)
  (endLine: "int option")
  (ntype: string)
  (nclass: "string option")
  (fullName: string)
  (parametrized: bool)
  (async: bool)
  (fixtures: "string list option")
  (children: "node list")

section \<open>Position resolution (util.ts, pytestRunner.ts)\<close>

text \<open>\<open>element.fullName || element.name\<close>.\<close>

definition fullNameOrName :: "node \<Rightarrow> string" where
  "fullNameOrName element = (if fullName element \<noteq> [] then fullName element else name element)"

text \<open>
  The two tests of the first loop of \<open>findFullTestName\<close>: the exact line, then the range
  when \<open>endLine\<close> is truthy (present and not 0).
\<close>

definition lineMatches :: "int \<Rightarrow> node \<Rightarrow> bool" where
  "lineMatches selectedLine element =
     (if selectedLine = line element then True
      else (case endLine element of
              None \<Rightarrow> False
            | Some e \<Rightarrow> e \<noteq> 0 \<and> selectedLine \<ge> line element \<and> selectedLine \<le> e))"

text \<open>The first loop: the first element of this level that matches.\<close>

fun firstLoop :: "int \<Rightarrow> node list \<Rightarrow> string option" where
  "firstLoop selectedLine [] = None"
| "firstLoop selectedLine (element # rest) =
     (if lineMatches selectedLine element then Some (fullNameOrName element)
      else firstLoop selectedLine rest)"

text \<open>
  \<open>findFullTestName\<close>: the first loop over the whole level, and only then the second
  loop, which descends into each element's children and returns the first truthy result.
\<close>

fun findFullTestName :: "int \<Rightarrow> node list \<Rightarrow> string option"
  and secondLoop :: "int \<Rightarrow> node list \<Rightarrow> string option" where
  "findFullTestName selectedLine cs =
     (case firstLoop selectedLine cs of
        Some r \<Rightarrow> Some r
      | None \<Rightarrow> secondLoop selectedLine cs)"
| "secondLoop selectedLine [] = None"
| "secondLoop selectedLine (Node n l e t c f p a fx elementChildren # rest) =
     (case findFullTestName selectedLine elementChildren of
        Some r \<Rightarrow> (if r \<noteq> [] then Some r else secondLoop selectedLine rest)
      | None \<Rightarrow> secondLoop selectedLine rest)"

text \<open>
  \<open>PytestRunner.findCurrentTestName\<close>: \<open>selectedText\<close> is the text of the selection
  (empty exactly when \<open>selection.isEmpty\<close>), \<open>activeLine\<close> is the 0-based
  \<open>selection.active.line\<close>, and \<open>testFile\<close> is what \<open>parse(filePath)\<close> returns.
\<close>

definition findCurrentTestName :: "string \<Rightarrow> int \<Rightarrow> node list \<Rightarrow> string option" where
  "findCurrentTestName selectedText activeLine testFile =
     (if selectedText \<noteq> [] then Some (unquote selectedText)
      else findFullTestName (activeLine + 1) testFile)"

text \<open>
  For stating where a cursor line can match at all: \<open>matchesAnywhere\<close> holds when the
  element or one of its descendants passes the tests of the first loop.
\<close>

fun matchesAnywhere :: "int \<Rightarrow> node \<Rightarrow> bool" where
  "matchesAnywhere selectedLine (Node n l e t c f p a fx ch) =
     (lineMatches selectedLine (Node n l e t c f p a fx ch)
      \<or> (\<exists>child \<in> set ch. matchesAnywhere selectedLine child))"

section \<open>The parser (parser.ts)\<close>

subsection \<open>The outside world\<close>

text \<open>
  What the parser reads from outside: the file system, the interpreter subprocess and
  the JSON it prints. Each call that can throw returns \<open>None\<close> for the exception.
\<close>

datatype error = ScriptNotFound | ExecFailed | JsonMalformed | ReadFailed | StatFailed

text \<open>
  One entry of the \<open>tests\<close> array printed by the interpreter script, before
  \<open>processTestNodes\<close> fills in the defaults: every field but \<open>name\<close> may be missing.
\<close>

record raw_test =
  raw_name :: string
  raw_line :: "int option"
  raw_type :: "string option"
  raw_class :: "string option"
  raw_full_name :: "string option"
  raw_parametrized :: "bool option"
  raw_async :: "bool option"
  raw_fixtures :: "string list option"

text \<open>\<open>PythonParserResult\<close>, its fields \<open>tests\<close> and \<open>success\<close>; \<open>result_tests\<close> is
  \<open>None\<close> when \<open>tests\<close> is not an array.\<close>

record parser_result =
  result_tests :: "raw_test list option"
  result_success :: bool

record world =
  existsSync :: "string \<Rightarrow> bool"
  readFileSync :: "string \<Rightarrow> string option"
  statSyncIsDirectory :: "string \<Rightarrow> bool option"
  pythonParserPath :: string
  execSync :: "string \<Rightarrow> string option"
  JSON_parse :: "string \<Rightarrow> parser_result option"

subsection \<open>isTestFile\<close>

text \<open>\<open>path.basename\<close> on a POSIX path: trailing slashes dropped, then the last component.\<close>

definition basename :: "string \<Rightarrow> string" where
  "basename p =
     rev (takeWhile (\<lambda>c. c \<noteq> CHR ''/'') (dropWhile (\<lambda>c. c = CHR ''/'') (rev p)))"

definition isTestFile :: "string \<Rightarrow> bool" where
  "isTestFile filePath =
     (let fileName = basename filePath
      in endsWith fileName ''.py'' \<and>
         (startsWith fileName ''test_'' \<or> endsWith fileName ''_test.py''
          \<or> includes_str fileName ''test''))"

subsection \<open>processTestNodes\<close>

text \<open>\<open>test.line || 1\<close>: a missing line and line 0 both become 1.\<close>

definition lineOr1 :: "int option \<Rightarrow> int" where
  "lineOr1 l = (case l of None \<Rightarrow> 1 | Some v \<Rightarrow> if v = 0 then 1 else v)"

text \<open>\<open>x || d\<close> on an optional string: missing and empty both give the default.\<close>

definition strOr :: "string option \<Rightarrow> string \<Rightarrow> string" where
  "strOr x d = (case x of None \<Rightarrow> d | Some v \<Rightarrow> if v = [] then d else v)"

text \<open>The node literal of the first pass.\<close>

definition toNode :: "raw_test \<Rightarrow> node" where
  "toNode test =
     Node (raw_name test)
          (lineOr1 (raw_line test))
          None
          (strOr (raw_type test) ''function'')
          (case raw_class test of None \<Rightarrow> None | Some c \<Rightarrow> if c = [] then None else Some c)
          (strOr (raw_full_name test) (raw_name test))
          (case raw_parametrized test of None \<Rightarrow> False | Some b \<Rightarrow> b)
          (case raw_async test of None \<Rightarrow> False | Some b \<Rightarrow> b)
          (Some (case raw_fixtures test of None \<Rightarrow> [] | Some fs \<Rightarrow> fs))
          []"

text \<open>
  \<open>testsByClass\<close> is a \<open>Map\<close>, iterated in the order its keys were first set: an
  association list. \<open>addMethod\<close> is the \<open>has\<close>/\<open>set\<close>/\<open>get(...).push\<close> sequence.
\<close>

fun addMethod :: "string \<Rightarrow> node \<Rightarrow> (string \<times> node list) list \<Rightarrow> (string \<times> node list) list" where
  "addMethod className n [] = [(className, [n])]"
| "addMethod className n ((k, methods) # rest) =
     (if k = className then (k, methods @ [n]) # rest
      else (k, methods) # addMethod className n rest)"

fun firstPass :: "raw_test list \<Rightarrow> node list \<Rightarrow> (string \<times> node list) list
    \<Rightarrow> node list \<times> (string \<times> node list) list" where
  "firstPass [] processedTests testsByClass = (processedTests, testsByClass)"
| "firstPass (test # rest) processedTests testsByClass =
     (let n = toNode test
      in case nclass n of
           Some className \<Rightarrow> firstPass rest processedTests (addMethod className n testsByClass)
         | None \<Rightarrow> firstPass rest (processedTests @ [n]) testsByClass)"

fun secondPass :: "raw_test list \<Rightarrow> (string \<times> node list) list \<Rightarrow> node list \<Rightarrow> node list" where
  "secondPass tests [] processedTests = processedTests"
| "secondPass tests ((className, methods) # rest) processedTests =
     (case find (\<lambda>test. raw_name test = className \<and> raw_type test = Some ''class'') tests of
        Some classNode \<Rightarrow>
          secondPass tests rest
            (processedTests @
             [Node className (lineOr1 (raw_line classNode)) None ''class'' None className
                   False False None methods])
      | None \<Rightarrow> secondPass tests rest (processedTests @ methods))"

text \<open>
  \<open>Array.prototype.sort\<close> is stable and the comparator is \<open>a.line - b.line\<close>:
  \<open>sort_key line\<close>. Only \<open>processedTests\<close> is sorted; the \<open>methods\<close> arrays are not.
\<close>

definition processTestNodes :: "raw_test list \<Rightarrow> node list" where
  "processTestNodes ts =
     (case firstPass ts [] [] of
        (processedTests, testsByClass) \<Rightarrow> sort_key line (secondPass ts testsByClass processedTests))"

subsection \<open>parsePythonFile\<close>

text \<open>The body of the \<open>try\<close>, with each throw as \<open>Inl\<close>.\<close>

definition parsePythonFile_try :: "world \<Rightarrow> string \<Rightarrow> error + node list" where
  "parsePythonFile_try w filePath =
     (if \<not> existsSync w (pythonParserPath w) then Inl ScriptNotFound
      else case execSync w filePath of
             None \<Rightarrow> Inl ExecFailed
           | Some output \<Rightarrow>
               (case JSON_parse w output of
                  None \<Rightarrow> Inl JsonMalformed
                | Some result \<Rightarrow>
                    (if result_success result
                     then (case result_tests result of
                             Some ts \<Rightarrow> Inr (processTestNodes ts)
                           | None \<Rightarrow> Inr [])
                     else Inr [])))"

text \<open>The \<open>catch\<close>: every error becomes the empty list.\<close>

definition parsePythonFile :: "world \<Rightarrow> string \<Rightarrow> node list" where
  "parsePythonFile w filePath =
     (case parsePythonFile_try w filePath of Inl err \<Rightarrow> [] | Inr result \<Rightarrow> result)"

subsection \<open>parseWithRegex\<close>

text \<open>
  The text is ASCII in this model. \<open>isSpace\<close> is what \<open>\s\<close> and \<open>trim\<close> take for
  white space there, \<open>isWordChar\<close> is \<open>\w\<close>.
\<close>

definition isSpace :: "char \<Rightarrow> bool" where
  "isSpace c = (c = CHR '' '' \<or> c = CHR 0x09 \<or> c = CHR 0x0A \<or> c = CHR 0x0B
                \<or> c = CHR 0x0C \<or> c = CHR 0x0D)"

definition isWordChar :: "char \<Rightarrow> bool" where
  "isWordChar c =
     (let k = (of_char c :: nat)
      in (48 \<le> k \<and> k \<le> 57) \<or> (65 \<le> k \<and> k \<le> 90) \<or> k = 95 \<or> (97 \<le> k \<and> k \<le> 122))"

definition trim :: "string \<Rightarrow> string" where
  "trim s = rev (dropWhile isSpace (rev (dropWhile isSpace s)))"

text \<open>\<open>content.split('\n')\<close>.\<close>

fun split_char :: "char \<Rightarrow> string \<Rightarrow> string list" where
  "split_char sep [] = [[]]"
| "split_char sep (c # cs) =
     (if c = sep then [] # split_char sep cs
      else (case split_char sep cs of
              [] \<Rightarrow> [[c]]
            | l # ls \<Rightarrow> (c # l) # ls))"

text \<open>The rest of \<open>s\<close> after the literal \<open>p\<close>, when \<open>s\<close> starts with it.\<close>

definition afterLiteral :: "string \<Rightarrow> string \<Rightarrow> string option" where
  "afterLiteral p s = (if startsWith s p then Some (drop (length p) s) else None)"

text \<open>
  \<open>\s+(<prefix>\w*)\s*<one of closers>\<close>, anchored at the start of \<open>s\<close>; the result
  is the capture group. The character classes of neighbouring pieces are disjoint, so
  the greedy match is the only one and nothing is gained by backtracking.
\<close>

definition spacedName :: "string \<Rightarrow> char list \<Rightarrow> string \<Rightarrow> string option" where
  "spacedName namePrefix closers s =
     (if takeWhile isSpace s = [] then None
      else case afterLiteral namePrefix (dropWhile isSpace s) of
             None \<Rightarrow> None
           | Some r \<Rightarrow>
               (case dropWhile isSpace (dropWhile isWordChar r) of
                  [] \<Rightarrow> None
                | c # cs \<Rightarrow>
                    if c \<in> set closers then Some (namePrefix @ takeWhile isWordChar r)
                    else None))"

text \<open>\<open>/^def\s+(test_\w*)\s*\(/\<close>\<close>

definition functionMatch :: "string \<Rightarrow> string option" where
  "functionMatch trimmedLine =
     (case afterLiteral ''def'' trimmedLine of
        None \<Rightarrow> None
      | Some r \<Rightarrow> spacedName ''test_'' [CHR ''(''] r)"

text \<open>\<open>/^class\s+(Test\w*)\s*[\(\:]/\<close>\<close>

definition classMatch :: "string \<Rightarrow> string option" where
  "classMatch trimmedLine =
     (case afterLiteral ''class'' trimmedLine of
        None \<Rightarrow> None
      | Some r \<Rightarrow> spacedName ''Test'' [CHR ''('', CHR '':''] r)"

text \<open>\<open>/^async\s+def\s+(test_\w*)\s*\(/\<close>\<close>

definition asyncFunctionMatch :: "string \<Rightarrow> string option" where
  "asyncFunctionMatch trimmedLine =
     (case afterLiteral ''async'' trimmedLine of
        None \<Rightarrow> None
      | Some r \<Rightarrow>
          (if takeWhile isSpace r = [] then None
           else case afterLiteral ''def'' (dropWhile isSpace r) of
                  None \<Rightarrow> None
                | Some r2 \<Rightarrow> spacedName ''test_'' [CHR ''(''] r2))"

text \<open>The node pushed for a match on the line of index \<open>i\<close>.\<close>

definition regexNode :: "string \<Rightarrow> nat \<Rightarrow> string \<Rightarrow> bool \<Rightarrow> node" where
  "regexNode nm i ty isAsync = Node nm (int i + 1) None ty None nm False isAsync None []"

text \<open>One turn of the loop body: the three matches in the order of the source.\<close>

definition scanLine :: "nat \<Rightarrow> string \<Rightarrow> node option" where
  "scanLine i ln =
     (let trimmedLine = trim ln
      in case functionMatch trimmedLine of
           Some nm \<Rightarrow> Some (regexNode nm i ''function'' False)
         | None \<Rightarrow>
             (case classMatch trimmedLine of
                Some nm \<Rightarrow> Some (regexNode nm i ''class'' False)
              | None \<Rightarrow>
                  (case asyncFunctionMatch trimmedLine of
                     Some nm \<Rightarrow> Some (regexNode nm i ''function'' True)
                   | None \<Rightarrow> None)))"

fun scanLines :: "nat \<Rightarrow> string list \<Rightarrow> node list" where
  "scanLines i [] = []"
| "scanLines i (ln # rest) =
     (case scanLine i ln of
        Some n \<Rightarrow> n # scanLines (i + 1) rest
      | None \<Rightarrow> scanLines (i + 1) rest)"

text \<open>The \<open>try\<close> body and the \<open>catch\<close> of \<open>parseWithRegex\<close>.\<close>

definition parseWithRegex_try :: "world \<Rightarrow> string \<Rightarrow> error + node list" where
  "parseWithRegex_try w filePath =
     (case readFileSync w filePath of
        None \<Rightarrow> Inl ReadFailed
      | Some content \<Rightarrow> Inr (scanLines 0 (split_char (CHR 0x0A) content)))"

definition parseWithRegex :: "world \<Rightarrow> string \<Rightarrow> node list" where
  "parseWithRegex w filePath =
     (case parseWithRegex_try w filePath of Inl err \<Rightarrow> [] | Inr ts \<Rightarrow> ts)"

subsection \<open>parseTestFile and parse\<close>

text \<open>
  Both parsers catch whatever they throw, so the \<open>catch\<close> of \<open>parseTestFile\<close> (which
  calls \<open>parseWithRegex\<close> as well) is never entered.
\<close>

definition parseTestFile :: "world \<Rightarrow> string \<Rightarrow> node list" where
  "parseTestFile w filePath =
     (if \<not> existsSync w filePath then []
      else if \<not> isTestFile filePath then []
      else (let result = parsePythonFile w filePath
            in if length result > 0 then result else parseWithRegex w filePath))"

text \<open>\<open>parse\<close> makes a new \<open>PythonTestParser\<close> on every call; the class keeps no state
  but the script path.\<close>

definition parse :: "world \<Rightarrow> string \<Rightarrow> node list" where
  "parse w filePath = parseTestFile w filePath"

subsection \<open>The same code with the calls of the two parsers counted\<close>

record calls =
  structuralCalls :: nat
  patternCalls :: nat

definition parsePythonFile_counted :: "world \<Rightarrow> string \<Rightarrow> calls \<Rightarrow> node list \<times> calls" where
  "parsePythonFile_counted w filePath c =
     (parsePythonFile w filePath, c\<lparr>structuralCalls := structuralCalls c + 1\<rparr>)"

definition parseWithRegex_counted :: "world \<Rightarrow> string \<Rightarrow> calls \<Rightarrow> node list \<times> calls" where
  "parseWithRegex_counted w filePath c =
     (parseWithRegex w filePath, c\<lparr>patternCalls := patternCalls c + 1\<rparr>)"

definition parseTestFile_counted :: "world \<Rightarrow> string \<Rightarrow> calls \<Rightarrow> node list \<times> calls" where
  "parseTestFile_counted w filePath c =
     (if \<not> existsSync w filePath then ([], c)
      else if \<not> isTestFile filePath then ([], c)
      else (case parsePythonFile_counted w filePath c of
              (result, c1) \<Rightarrow>
                if length result > 0 then (result, c1)
                else parseWithRegex_counted w filePath c1))"

definition parse_counted :: "world \<Rightarrow> string \<Rightarrow> calls \<Rightarrow> node list \<times> calls" where
  "parse_counted w filePath c = parseTestFile_counted w filePath c"

text \<open>Two calls of \<open>parse\<close> in a row on the same path, nothing changed in between.\<close>

definition parseTwice :: "world \<Rightarrow> string \<Rightarrow> calls \<Rightarrow> (node list \<times> node list) \<times> calls" where
  "parseTwice w filePath c =
     (case parse_counted w filePath c of
        (first, c1) \<Rightarrow>
          (case parse_counted w filePath c1 of
             (second, c2) \<Rightarrow> ((first, second), c2)))"

text \<open>
  \<open>findCurrentTestName\<close> with its own call of \<open>parse(filePath)\<close>, which it makes only
  when the selection is empty.
\<close>

definition findCurrentTestName_counted ::
    "world \<Rightarrow> string \<Rightarrow> int \<Rightarrow> string \<Rightarrow> calls \<Rightarrow> string option \<times> calls" where
  "findCurrentTestName_counted w selectedText activeLine filePath c =
     (if selectedText \<noteq> [] then (Some (unquote selectedText), c)
      else (case parse_counted w filePath c of
              (testFile, c1) \<Rightarrow> (findFullTestName (activeLine + 1) testFile, c1)))"

section \<open>Poetry project detection (pytestRunnerConfig.ts, util.ts)\<close>

text \<open>
  Directories are absolute, normalised POSIX paths, kept as the list of their
  components (the root is \<open>[]\<close>). On such paths \<open>path.dirname\<close> drops the last
  component and leaves the root alone, \<open>path.join(dir, name)\<close> appends a component,
  \<open>path.resolve\<close> and, off Windows, \<open>normalizePath\<close> change nothing. \<open>render\<close> is the
  string the file system and \<open>startsWith\<close> see.
\<close>

type_synonym path = "string list"

definition dirname :: "path \<Rightarrow> path" where
  "dirname p = butlast p"

definition render :: "path \<Rightarrow> string" where
  "render p = (if p = [] then ''/'' else concat (map (\<lambda>component. CHR ''/'' # component) p))"

text \<open>The helper \<open>checkPoetryProject\<close> inside \<open>getPoetryProjectRoot\<close>.\<close>

definition checkPoetryProject :: "world \<Rightarrow> path \<Rightarrow> path option" where
  "checkPoetryProject w dirPath =
     (let pyprojectPath = render (dirPath @ [''pyproject.toml''])
      in if existsSync w pyprojectPath
         then (case readFileSync w pyprojectPath of
                 Some content \<Rightarrow>
                   if includes_str content ''[tool.poetry]'' then Some dirPath else None
               | None \<Rightarrow> None)
         else None)"

text \<open>
  The \<open>do ... while\<close> of \<open>searchPathToParent\<close>. The callback returns \<open>None\<close> for
  every falsy value.
\<close>

function searchLoop :: "(path \<Rightarrow> 'a option) \<Rightarrow> path \<Rightarrow> path \<Rightarrow> 'a option" where
  "searchLoop callback endPath currentFolderPath =
     (case callback currentFolderPath of
        Some result \<Rightarrow> Some result
      | None \<Rightarrow>
          (if dirname currentFolderPath \<noteq> endPath \<and> dirname currentFolderPath \<noteq> currentFolderPath
           then searchLoop callback endPath (dirname currentFolderPath)
           else None))"
  by pat_completeness auto
termination
  apply (relation "measure (\<lambda>(callback, endPath, currentFolderPath). length currentFolderPath)")
   apply simp
  apply (case_tac currentFolderPath)
   apply (simp_all add: dirname_def)
  done

declare searchLoop.simps [simp del]

text \<open>\<open>fs.statSync\<close> throws on a path that does not exist: \<open>Inl StatFailed\<close>.
  The result \<open>false\<close> is \<open>None\<close>.\<close>

definition searchPathToParent ::
    "world \<Rightarrow> path \<Rightarrow> path \<Rightarrow> (path \<Rightarrow> 'a option) \<Rightarrow> error + 'a option" where
  "searchPathToParent w startingPath ancestorPath callback =
     (case statSyncIsDirectory w (render startingPath) of
        None \<Rightarrow> Inl StatFailed
      | Some isDirectory \<Rightarrow>
          (let currentFolderPath = (if isDirectory then startingPath else dirname startingPath);
               endPath = dirname ancestorPath
           in if \<not> startsWith (render currentFolderPath) (render endPath) then Inr None
              else Inr (searchLoop callback endPath currentFolderPath)))"

text \<open>
  \<open>getPoetryProjectRoot\<close>: \<open>activeFile\<close> is the path of the active editor's document
  when there is one, \<open>workspaceFolder\<close> is \<open>currentWorkspaceFolderPath\<close>.
\<close>

definition getPoetryProjectRoot :: "world \<Rightarrow> path option \<Rightarrow> path \<Rightarrow> error + path option" where
  "getPoetryProjectRoot w activeFile workspaceFolder =
     (let startPath = (case activeFile of Some f \<Rightarrow> dirname f | None \<Rightarrow> workspaceFolder)
      in case checkPoetryProject w workspaceFolder of
           Some workspaceCheck \<Rightarrow> Inr (Some workspaceCheck)
         | None \<Rightarrow> searchPathToParent w startPath workspaceFolder (checkPoetryProject w))"

text \<open>The directories an upward walk from \<open>workspaceFolder @ below\<close> to
  \<open>workspaceFolder\<close> passes, nearest to the file first.\<close>

definition upwardDirs :: "path \<Rightarrow> path \<Rightarrow> path list" where
  "upwardDirs workspaceFolder below =
     map (\<lambda>k. workspaceFolder @ take k below) (rev [0..<Suc (length below)])"

section \<open>Command building (pytestRunnerConfig.ts, pytestRunner.ts)\<close>

text \<open>
  The settings the builder reads. \<open>poetryProjectDetected\<close> is the value of
  \<open>detectPoetryProject()\<close>, \<open>getPytestConfigPath\<close> the result of the method of that
  name (empty when no configuration file is found).
\<close>

record config =
  pytestPath :: string
  usePoetry :: bool
  poetryProjectDetected :: bool
  pytestArgs :: "string list"
  getPytestConfigPath :: "string \<Rightarrow> string"

definition pytestCommand :: "config \<Rightarrow> string" where
  "pytestCommand cfg =
     (let baseCommand = (if usePoetry cfg \<and> poetryProjectDetected cfg then ''poetry run pytest''
                         else pytestPath cfg);
          args = join '' '' (pytestArgs cfg)
      in baseCommand @ (if args \<noteq> [] then '' '' @ args else []))"

text \<open>\<open>[...new Set(options)]\<close>: each option once, at its first position.\<close>

fun setOptions :: "string list \<Rightarrow> string list" where
  "setOptions [] = []"
| "setOptions (x # xs) = x # setOptions (filter (\<lambda>y. y \<noteq> x) xs)"

definition quoter :: "bool \<Rightarrow> bool \<Rightarrow> string \<Rightarrow> string" where
  "quoter isWindows withQuotes s = (if withQuotes then quote isWindows s else s)"

text \<open>The argument of \<open>-k\<close> for a truthy \<open>testName\<close>, before quoting.\<close>

definition selection :: "string \<Rightarrow> string" where
  "selection testName =
     (if includes_str testName ''::'' then replace testName ''::'' '' and '' else testName)"

text \<open>\<open>testName\<close> is \<open>None\<close> for \<open>undefined\<close>; the empty string is falsy as well.\<close>

definition buildPytestArgs ::
    "bool \<Rightarrow> config \<Rightarrow> string \<Rightarrow> string option \<Rightarrow> bool \<Rightarrow> string list \<Rightarrow> string list" where
  "buildPytestArgs isWindows cfg filePath testName withQuotes options =
     (let args1 = [quoter isWindows withQuotes (normalizePath isWindows filePath)];
          args2 = (case testName of
                     None \<Rightarrow> args1
                   | Some t \<Rightarrow>
                       if t \<noteq> [] then args1 @ [''-k'', quoter isWindows withQuotes (selection t)]
                       else args1);
          pytestConfigPath = getPytestConfigPath cfg filePath;
          args3 = (if pytestConfigPath \<noteq> []
                   then args2 @ [''-c'', quoter isWindows withQuotes
                                          (normalizePath isWindows pytestConfigPath)]
                   else args2);
          configArgs = pytestArgs cfg;
          args4 = (if length configArgs > 0 then args3 @ configArgs else args3);
          args5 = (if length options > 0 then args4 @ setOptions options else args4)
      in args5)"

definition buildPytestCommand ::
    "bool \<Rightarrow> config \<Rightarrow> string \<Rightarrow> string option \<Rightarrow> string list \<Rightarrow> string" where
  "buildPytestCommand isWindows cfg filePath testName options =
     pytestCommand cfg @ '' '' @ join '' '' (buildPytestArgs isWindows cfg filePath testName True options)"

section \<open>Auxiliary notions for the properties\<close>

text \<open>The methods the structural parser reported for a class, in the order reported.\<close>

definition methodsOf :: "string \<Rightarrow> raw_test list \<Rightarrow> node list" where
  "methodsOf className ts = filter (\<lambda>n. nclass n = Some className) (map toNode ts)"

section \<open>Sample inputs\<close>

text \<open>A method with a known span, inside a class with a known span, and inside the
  same class without one.\<close>

definition divideMethod :: node where
  "divideMethod =
     Node ''test_divide'' 2 (Some 4) ''method'' (Some ''TestCalc'') ''TestCalc::test_divide''
          False False (Some []) []"

definition calcTree :: "node list" where
  "calcTree =
     [Node ''TestCalc'' 1 (Some 10) ''class'' None ''TestCalc'' False False None [divideMethod]]"

definition openClass :: node where
  "openClass = Node ''TestCalc'' 1 None ''class'' None ''TestCalc'' False False None [divideMethod]"

definition laterFunction :: node where
  "laterFunction = Node ''test_add'' 12 None ''function'' None ''test_add'' False False (Some []) []"

text \<open>The settings out of the box, in a project without Poetry and without a pytest
  configuration file.\<close>

definition defaultConfig :: config where
  "defaultConfig =
     \<lparr>pytestPath = ''pytest'', usePoetry = True, poetryProjectDetected = False,
      pytestArgs = [''-v''], getPytestConfigPath = (\<lambda>targetPath. [])\<rparr>"

text \<open>A readable test file with a working interpreter that reports one test.\<close>

definition addTest :: raw_test where
  "addTest =
     \<lparr>raw_name = ''test_add'', raw_line = Some 1, raw_type = Some ''function'',
      raw_class = None, raw_full_name = Some ''test_add'', raw_parametrized = Some False,
      raw_async = Some False, raw_fixtures = Some []\<rparr>"

definition calcWorld :: world where
  "calcWorld =
     \<lparr>existsSync = (\<lambda>p. True),
      readFileSync = (\<lambda>p. Some ''def test_add():''),
      statSyncIsDirectory = (\<lambda>p. Some False),
      pythonParserPath = ''ast_parser.py'',
      execSync = (\<lambda>p. Some ''{}''),
      JSON_parse = (\<lambda>output. Some \<lparr>result_tests = Some [addTest], result_success = True\<rparr>)\<rparr>"

text \<open>The same file with the interpreter missing.\<close>

definition noPythonWorld :: world where
  "noPythonWorld = calcWorld\<lparr>execSync := (\<lambda>p. None),
     readFileSync := (\<lambda>p. Some (''class TestCalc:''
        @ [CHR 0x0A] @ ''    def test_add(self):''
        @ [CHR 0x0A] @ ''        pass''
        @ [CHR 0x0A] @ ''async def test_later():''))\<rparr>"

text \<open>A class whose methods the interpreter reports out of line order.\<close>

definition classTests :: "raw_test list" where
  "classTests =
     [\<lparr>raw_name = ''TestCalc'', raw_line = Some 1, raw_type = Some ''class'',
       raw_class = None, raw_full_name = None, raw_parametrized = None,
       raw_async = None, raw_fixtures = None\<rparr>,
      \<lparr>raw_name = ''test_b'', raw_line = Some 5, raw_type = Some ''method'',
       raw_class = Some ''TestCalc'', raw_full_name = Some ''TestCalc::test_b'',
       raw_parametrized = None, raw_async = None, raw_fixtures = None\<rparr>,
      \<lparr>raw_name = ''test_a'', raw_line = Some 3, raw_type = Some ''method'',
       raw_class = Some ''TestCalc'', raw_full_name = Some ''TestCalc::test_a'',
       raw_parametrized = None, raw_async = None, raw_fixtures = None\<rparr>]"

definition classWorld :: world where
  "classWorld = calcWorld\<lparr>JSON_parse :=
     (\<lambda>output. Some \<lparr>result_tests = Some classTests, result_success = True\<rparr>)\<rparr>"

text \<open>A workspace \<open>/ws\<close> that is a Poetry project and holds a second Poetry project
  in \<open>/ws/pkg\<close>.\<close>

definition poetryWorld :: world where
  "poetryWorld = calcWorld\<lparr>
     existsSync := (\<lambda>p. p = ''/ws/pyproject.toml'' \<or> p = ''/ws/pkg/pyproject.toml''),
     readFileSync := (\<lambda>p. Some ''[tool.poetry]''),
     statSyncIsDirectory := (\<lambda>p. Some True)\<rparr>"

text \<open>The same workspace with only \<open>/ws/pkg\<close> a Poetry project.\<close>

definition nestedPoetryWorld :: world where
  "nestedPoetryWorld = poetryWorld\<lparr>existsSync := (\<lambda>p. p = ''/ws/pkg/pyproject.toml'')\<rparr>"

section \<open>Position resolution: properties\<close>


lemma firstLoop_None: "(\<forall>e\<in>set cs. \<not> lineMatches l e) \<Longrightarrow> firstLoop l cs = None"
  by (induction cs) auto

lemma firstLoop_first:
  "(\<forall>e\<in>set ms1. \<not> lineMatches l e) \<Longrightarrow> lineMatches l m \<Longrightarrow>
   firstLoop l (ms1 @ m # ms2) = Some (fullNameOrName m)"
  by (induction ms1) auto

lemma no_match_None:
  "(\<forall>e\<in>set cs. \<not> matchesAnywhere l e) \<longrightarrow> findFullTestName l cs = None"
  "(\<forall>e\<in>set cs2. \<not> matchesAnywhere l2 e) \<longrightarrow> secondLoop l2 cs2 = None"
proof (induction l cs and l2 cs2 rule: findFullTestName_secondLoop.induct)
  case (1 selectedLine cs)
  show ?case
  proof
    assume a: "\<forall>e\<in>set cs. \<not> matchesAnywhere selectedLine e"
    have "\<forall>e\<in>set cs. \<not> lineMatches selectedLine e"
    proof
      fix e assume "e \<in> set cs"
      with a have "\<not> matchesAnywhere selectedLine e" by blast
      then show "\<not> lineMatches selectedLine e" by (cases e) simp
    qed
    then have f: "firstLoop selectedLine cs = None" by (rule firstLoop_None)
    with 1 a show "findFullTestName selectedLine cs = None" by simp
  qed
next
  case (2 selectedLine)
  show ?case by simp
next
  case (3 selectedLine n l e t c f p a fx elementChildren rest)
  show ?case
  proof
    assume a: "\<forall>x\<in>set (Node n l e t c f p a fx elementChildren # rest). \<not> matchesAnywhere selectedLine x"
    then have "\<forall>x\<in>set elementChildren. \<not> matchesAnywhere selectedLine x" by simp
    with 3 have h: "findFullTestName selectedLine elementChildren = None" by blast
    from a have "\<forall>x\<in>set rest. \<not> matchesAnywhere selectedLine x" by simp
    with 3 h have "secondLoop selectedLine rest = None" by simp
    with h show "secondLoop selectedLine (Node n l e t c f p a fx elementChildren # rest) = None"
      by simp
  qed
qed

lemma secondLoop_append:
  "secondLoop l pre = None \<Longrightarrow> secondLoop l (pre @ xs) = secondLoop l xs"
proof (induction pre)
  case Nil show ?case by simp
next
  case (Cons e pre)
  then show ?case by (cases e) (auto split: option.splits if_splits)
qed

lemma secondLoop_hit:
  assumes "findFullTestName l (children e) = Some r" and "r \<noteq> []"
  shows "secondLoop l (e # rest) = Some r"
  using assms by (cases e) simp

text \<open>
  C1 (as amended). With no selected text, a cursor line that is a method's line or lies in
  its known span resolves to that method's qualified name provided that no top-level
  entity from the method's class onward matches the line, nothing matches it in or below
  the entities before the class, and no earlier sibling of the method matches: the whole
  sibling level is tested before any children are searched.
\<close>

theorem findFullTestName_returns_method:
  assumes top: "\<forall>e\<in>set (cls # after). \<not> lineMatches selectedLine e"
      and before: "\<forall>e\<in>set before. \<not> matchesAnywhere selectedLine e"
      and kids: "children cls = earlier @ method # later"
      and earlier: "\<forall>e\<in>set earlier. \<not> lineMatches selectedLine e"
      and hit: "lineMatches selectedLine method"
      and named: "fullName method \<noteq> []"
  shows "findFullTestName selectedLine (before @ cls # after) = Some (fullName method)"
proof -
  have "\<forall>e\<in>set before. \<not> lineMatches selectedLine e"
  proof
    fix e assume "e \<in> set before"
    with before have "\<not> matchesAnywhere selectedLine e" by blast
    then show "\<not> lineMatches selectedLine e" by (cases e) simp
  qed
  with top have "\<forall>e\<in>set (before @ cls # after). \<not> lineMatches selectedLine e" by auto
  then have level: "firstLoop selectedLine (before @ cls # after) = None"
    by (rule firstLoop_None)
  from before have skip: "secondLoop selectedLine before = None"
    using no_match_None(2) by blast
  have "firstLoop selectedLine (children cls) = Some (fullNameOrName method)"
    unfolding kids using earlier hit by (rule firstLoop_first)
  with named have "findFullTestName selectedLine (children cls) = Some (fullName method)"
    by (simp add: fullNameOrName_def)
  then have "secondLoop selectedLine (cls # after) = Some (fullName method)"
    using named by (rule secondLoop_hit)
  with skip have "secondLoop selectedLine (before @ cls # after) = Some (fullName method)"
    by (simp add: secondLoop_append)
  with level show ?thesis by simp
qed

theorem findFullTestName_returns_method_witness:
  "findFullTestName 3 [openClass, laterFunction] = Some ''TestCalc::test_divide''"
  using findFullTestName_returns_method
          [of openClass "[laterFunction]" 3 "[]" "[]" divideMethod "[]"]
  by (simp add: openClass_def laterFunction_def divideMethod_def lineMatches_def)

text \<open>
  C1 as stated fails: with the cursor on line 3, strictly inside the span 2..4 of
  \<open>test_divide\<close>, the class \<open>TestCalc\<close> (span 1..10) is returned, because the first
  loop returns the class before the second loop looks at its children.
\<close>

theorem findFullTestName_class_shadows_method:
  "line divideMethod < 3 \<and> endLine divideMethod = Some 4 \<and> divideMethod \<in> set (children (hd calcTree))
   \<and> findCurrentTestName [] 2 calcTree = Some ''TestCalc''
   \<and> findCurrentTestName [] 2 calcTree \<noteq> Some (fullName divideMethod)"
  by (simp add: calcTree_def divideMethod_def findCurrentTestName_def lineMatches_def
        fullNameOrName_def)

lemma unquote_both: "QUOTES q1 \<Longrightarrow> QUOTES q2 \<Longrightarrow> unquote (q1 # m @ [q2]) = m"
  by (simp add: unquote_def)

lemma unquote_single: "QUOTES q \<Longrightarrow> unquote [q] = []"
  by (simp add: unquote_def)

lemma unquote_leading:
  "QUOTES q \<Longrightarrow> m \<noteq> [] \<Longrightarrow> \<not> QUOTES (last m) \<Longrightarrow> unquote (q # m) = m"
  by (simp add: unquote_def)

lemma unquote_trailing:
  "m \<noteq> [] \<Longrightarrow> \<not> QUOTES (hd m) \<Longrightarrow> QUOTES q \<Longrightarrow> unquote (m @ [q]) = m"
  by (simp add: unquote_def)

text \<open>
  C8. With a non-empty selection, \<open>findCurrentTestName\<close> returns the selected text with
  its enclosing quotes trimmed, whatever the cursor line and the tree are, and it does not
  call the parser. The trimming is spelled out: a selection with no quote at either end
  comes back as it is, one with a quote at both ends comes back without them, a lone quote
  gives the empty string, and a quote at one end only is dropped at that end.
\<close>

theorem findCurrentTestName_selection:
  "selectedText \<noteq> [] \<Longrightarrow>
     findCurrentTestName selectedText activeLine testFile = Some (unquote selectedText)
     \<and> findCurrentTestName selectedText activeLine testFile
         = findCurrentTestName selectedText otherLine otherFile
     \<and> findCurrentTestName_counted w selectedText activeLine filePath c
         = (Some (unquote selectedText), c)
     \<and> (\<not> QUOTES (hd selectedText) \<and> \<not> QUOTES (last selectedText) \<longrightarrow>
          findCurrentTestName selectedText activeLine testFile = Some selectedText)
     \<and> (QUOTES q1 \<and> QUOTES q2 \<longrightarrow>
          findCurrentTestName (q1 # m @ [q2]) activeLine testFile = Some m)
     \<and> (QUOTES q1 \<longrightarrow> findCurrentTestName [q1] activeLine testFile = Some [])
     \<and> (QUOTES q1 \<and> m \<noteq> [] \<and> \<not> QUOTES (last m) \<longrightarrow>
          findCurrentTestName (q1 # m) activeLine testFile = Some m)
     \<and> (QUOTES q2 \<and> m \<noteq> [] \<and> \<not> QUOTES (hd m) \<longrightarrow>
          findCurrentTestName (m @ [q2]) activeLine testFile = Some m)"
proof -
  assume sel: "selectedText \<noteq> []"
  have plain: "\<not> QUOTES (hd selectedText) \<and> \<not> QUOTES (last selectedText) \<longrightarrow>
      unquote selectedText = selectedText"
    by (simp add: unquote_def)
  have 1: "findCurrentTestName selectedText activeLine testFile = Some (unquote selectedText)"
    and 2: "findCurrentTestName selectedText activeLine testFile
         = findCurrentTestName selectedText otherLine otherFile"
    and 3: "findCurrentTestName_counted w selectedText activeLine filePath c
         = (Some (unquote selectedText), c)"
    using sel by (simp_all add: findCurrentTestName_def findCurrentTestName_counted_def)
  have 4: "\<not> QUOTES (hd selectedText) \<and> \<not> QUOTES (last selectedText) \<longrightarrow>
          findCurrentTestName selectedText activeLine testFile = Some selectedText"
    using 1 plain by simp
  have 5: "QUOTES q1 \<and> QUOTES q2 \<longrightarrow>
          findCurrentTestName (q1 # m @ [q2]) activeLine testFile = Some m"
    using unquote_both [of q1 q2 m] by (simp add: findCurrentTestName_def)
  have 6: "QUOTES q1 \<longrightarrow> findCurrentTestName [q1] activeLine testFile = Some []"
    using unquote_single [of q1] by (simp add: findCurrentTestName_def)
  have 7: "QUOTES q1 \<and> m \<noteq> [] \<and> \<not> QUOTES (last m) \<longrightarrow>
          findCurrentTestName (q1 # m) activeLine testFile = Some m"
    using unquote_leading [of q1 m] by (simp add: findCurrentTestName_def)
  have 8: "QUOTES q2 \<and> m \<noteq> [] \<and> \<not> QUOTES (hd m) \<longrightarrow>
          findCurrentTestName (m @ [q2]) activeLine testFile = Some m"
    using unquote_trailing [of m q2] by (simp add: findCurrentTestName_def)
  from 1 2 3 4 5 6 7 8 show ?thesis by blast
qed

theorem findCurrentTestName_selection_witness:
  "findCurrentTestName ''foo'' 2 calcTree = Some ''foo''
   \<and> findCurrentTestName ''foo'' 2 calcTree = findCurrentTestName ''foo'' 7 []
   \<and> findCurrentTestName_counted calcWorld ''foo'' 2 ''test_calc.py''
         \<lparr>structuralCalls = 0, patternCalls = 0\<rparr>
       = (Some ''foo'', \<lparr>structuralCalls = 0, patternCalls = 0\<rparr>)
   \<and> findCurrentTestName (CHR 0x22 # ''test_add'' @ [CHR 0x22]) 2 calcTree = Some ''test_add''
   \<and> findCurrentTestName (CHR 0x27 # ''test_add'' @ [CHR 0x60]) 2 calcTree = Some ''test_add''
   \<and> findCurrentTestName [CHR 0x27] 2 calcTree = Some []
   \<and> findCurrentTestName (CHR 0x60 # ''test_add'') 2 calcTree = Some ''test_add''
   \<and> findCurrentTestName (''test_add'' @ [CHR 0x27]) 2 calcTree = Some ''test_add''"
proof -
  have foo: "''foo'' \<noteq> []" by simp
  have dq: "QUOTES (CHR 0x22)" and sq: "QUOTES (CHR 0x27)" and bq: "QUOTES (CHR 0x60)"
    by (simp_all add: QUOTES_def)
  have nf: "\<not> QUOTES (hd ''foo'') \<and> \<not> QUOTES (last ''foo'')" by (simp add: QUOTES_def)
  have nt: "''test_add'' \<noteq> [] \<and> \<not> QUOTES (hd ''test_add'') \<and> \<not> QUOTES (last ''test_add'')"
    by (simp add: QUOTES_def)
  note plain = findCurrentTestName_selection [OF foo, of 2 calcTree 7 "[]" calcWorld "''test_calc.py''"
          "\<lparr>structuralCalls = 0, patternCalls = 0\<rparr>" "CHR 0x22" "CHR 0x22" "''test_add''"]
  note mixed = findCurrentTestName_selection [OF foo, of 2 calcTree 7 "[]" calcWorld "''test_calc.py''"
          "\<lparr>structuralCalls = 0, patternCalls = 0\<rparr>" "CHR 0x27" "CHR 0x60" "''test_add''"]
  note sides = findCurrentTestName_selection [OF foo, of 2 calcTree 7 "[]" calcWorld "''test_calc.py''"
          "\<lparr>structuralCalls = 0, patternCalls = 0\<rparr>" "CHR 0x60" "CHR 0x27" "''test_add''"]
  from plain nf have 1: "findCurrentTestName ''foo'' 2 calcTree = Some ''foo''" by blast
  from plain have 2: "findCurrentTestName ''foo'' 2 calcTree = findCurrentTestName ''foo'' 7 []"
    by blast
  from plain have "findCurrentTestName ''foo'' 2 calcTree = Some (unquote ''foo'')" by blast
  with 1 have "unquote ''foo'' = ''foo''" by simp
  with plain have 3: "findCurrentTestName_counted calcWorld ''foo'' 2 ''test_calc.py''
         \<lparr>structuralCalls = 0, patternCalls = 0\<rparr>
       = (Some ''foo'', \<lparr>structuralCalls = 0, patternCalls = 0\<rparr>)" by simp
  from plain dq
  have 4: "findCurrentTestName (CHR 0x22 # ''test_add'' @ [CHR 0x22]) 2 calcTree = Some ''test_add''"
    by blast
  from mixed sq bq
  have 5: "findCurrentTestName (CHR 0x27 # ''test_add'' @ [CHR 0x60]) 2 calcTree = Some ''test_add''"
    by blast
  from mixed sq have 6: "findCurrentTestName [CHR 0x27] 2 calcTree = Some []" by blast
  from sides bq nt
  have 7: "findCurrentTestName (CHR 0x60 # ''test_add'') 2 calcTree = Some ''test_add''" by blast
  from sides sq nt
  have 8: "findCurrentTestName (''test_add'' @ [CHR 0x27]) 2 calcTree = Some ''test_add''" by blast
  from 1 2 3 4 5 6 7 8 show ?thesis by blast
qed

lemma unquote_decomp:
  "\<exists>a b. s = a @ unquote s @ b \<and> length a \<le> 1 \<and> length b \<le> 1 \<and> (\<forall>c\<in>set (a @ b). QUOTES c)"
proof -
  define s1 where "s1 = (if s \<noteq> [] \<and> QUOTES (hd s) then tl s else s)"
  define a where "a = (if s \<noteq> [] \<and> QUOTES (hd s) then [hd s] else [])"
  define b where "b = (if s1 \<noteq> [] \<and> QUOTES (last s1) then [last s1] else [])"
  have u: "unquote s = (if s1 \<noteq> [] \<and> QUOTES (last s1) then butlast s1 else s1)"
    by (simp add: unquote_def s1_def Let_def)
  have 1: "s = a @ s1" by (simp add: a_def s1_def)
  have 2: "s1 = unquote s @ b" by (simp add: u b_def)
  have "s = a @ unquote s @ b" using 1 2 by simp
  moreover have "length a \<le> 1" "length b \<le> 1" by (simp_all add: a_def b_def)
  moreover have "\<forall>c\<in>set (a @ b). QUOTES c" by (auto simp: a_def b_def)
  ultimately show ?thesis by blast
qed

text \<open>
  C9. \<open>unquote\<close> removes at most one leading and at most one trailing quote character,
  each on its own: a quote at the front and a quote at the back both go even when they
  differ, a lone quote becomes the empty string, and a quote on one side only is removed
  on that side.
\<close>

theorem unquote_one_quote_each_side:
  "(\<exists>a b. s = a @ unquote s @ b \<and> length a \<le> 1 \<and> length b \<le> 1 \<and> (\<forall>c\<in>set (a @ b). QUOTES c))
   \<and> (QUOTES q1 \<and> QUOTES q2 \<longrightarrow> unquote (q1 # m @ [q2]) = m)
   \<and> (QUOTES q1 \<longrightarrow> unquote [q1] = [])
   \<and> (QUOTES q1 \<and> m \<noteq> [] \<and> \<not> QUOTES (last m) \<longrightarrow> unquote (q1 # m) = m)
   \<and> (QUOTES q2 \<and> m \<noteq> [] \<and> \<not> QUOTES (hd m) \<longrightarrow> unquote (m @ [q2]) = m)"
  using unquote_decomp [of s] unquote_both [of q1 q2 m] unquote_single [of q1]
        unquote_leading [of q1 m] unquote_trailing [of m q2]
  by blast

theorem unquote_one_quote_each_side_witness:
  "unquote (CHR 0x27 # ''test_add'' @ [CHR 0x22]) = ''test_add''
   \<and> unquote [CHR 0x27] = []
   \<and> unquote (CHR 0x60 # ''test_add'') = ''test_add''
   \<and> unquote (''test_add'' @ [CHR 0x22]) = ''test_add''"
  using unquote_one_quote_each_side [of "[]" "CHR 0x27" "CHR 0x22" "''test_add''"]
        unquote_one_quote_each_side [of "[]" "CHR 0x60" "CHR 0x22" "''test_add''"]
  by (simp add: QUOTES_def)

section \<open>Command building: properties\<close>


lemma startsWith_colons:
  "startsWith s ''::'' \<longleftrightarrow> (\<exists>r. s = ''::'' @ r)"
  by (cases s; cases "tl s") auto

lemma replace_at_first:
  "\<not> includes_str (a @ '':'') ''::'' \<Longrightarrow>
   replace (a @ ''::'' @ b) ''::'' '' and '' = a @ '' and '' @ b"
proof (induction a)
  case Nil
  show ?case by simp
next
  case (Cons x a)
  from Cons.prems have no: "\<not> startsWith (x # a @ '':'') ''::''"
    and rest: "\<not> includes_str (a @ '':'') ''::''" by simp_all
  from no have "\<not> startsWith (x # a @ ''::'' @ b) ''::''"
    by (cases a) auto
  with Cons.IH [OF rest] show ?case by simp
qed

lemma includes_split:
  "includes_str s ''::'' \<Longrightarrow>
   \<exists>a b. s = a @ ''::'' @ b \<and> \<not> includes_str (a @ '':'') ''::''"
proof (induction s)
  case Nil
  then show ?case by simp
next
  case (Cons c s)
  show ?case
  proof (cases "startsWith (c # s) ''::''")
    case True
    then obtain r where "c # s = ''::'' @ r" using startsWith_colons by blast
    then have "c # s = [] @ ''::'' @ r \<and> \<not> includes_str ([] @ '':'') ''::''" by simp
    then show ?thesis by blast
  next
    case False
    with Cons.prems have "includes_str s ''::''" by auto
    from Cons.IH [OF this] obtain a b
      where s: "s = a @ ''::'' @ b" and a: "\<not> includes_str (a @ '':'') ''::''" by blast
    from False s have "\<not> startsWith (c # a @ '':'') ''::''" by (cases a) auto
    with a have "\<not> includes_str ((c # a) @ '':'') ''::''" by simp
    moreover from s have "c # s = (c # a) @ ''::'' @ b" by simp
    ultimately show ?thesis by blast
  qed
qed

lemma includes_append: "includes_str (a @ ''::'' @ b) ''::''"
  by (induction a) auto

lemma no_colons_left:
  "\<not> includes_str (a @ '':'') ''::'' \<Longrightarrow> \<not> includes_str b ''::'' \<Longrightarrow>
   \<not> includes_str (a @ '' and '' @ b) ''::''"
proof (induction a)
  case Nil
  then show ?case by simp
next
  case (Cons x a)
  from Cons.prems have no: "\<not> startsWith (x # a @ '':'') ''::''"
    and rest: "\<not> includes_str (a @ '':'') ''::''" by simp_all
  from no have "\<not> startsWith (x # a @ '' and '' @ b) ''::''"
    by (cases a) auto
  with Cons.IH [OF rest Cons.prems(2)] show ?case by simp
qed

lemma includes_suffix: "includes_str y p \<Longrightarrow> includes_str (x @ y) p"
  by (induction x) simp_all

lemma colons_left_iff:
  assumes "\<not> includes_str (a @ '':'') ''::''"
  shows "includes_str (a @ '' and '' @ b) ''::'' \<longleftrightarrow> includes_str b ''::''"
proof
  assume "includes_str (a @ '' and '' @ b) ''::''"
  with assms no_colons_left show "includes_str b ''::''" by blast
next
  assume "includes_str b ''::''"
  then have "includes_str ((a @ '' and '') @ b) ''::''" by (rule includes_suffix)
  then show "includes_str (a @ '' and '' @ b) ''::''" by simp
qed

lemma buildPytestArgs_selector:
  "t \<noteq> [] \<Longrightarrow>
   buildPytestArgs isWindows cfg filePath (Some t) withQuotes options =
     [quoter isWindows withQuotes (normalizePath isWindows filePath), ''-k'',
      quoter isWindows withQuotes (selection t)]
     @ drop 1 (buildPytestArgs isWindows cfg filePath None withQuotes options)"
  by (simp add: buildPytestArgs_def Let_def)

text \<open>
  C7 (as amended). A selector that contains \<open>::\<close> splits at its first \<open>::\<close> into two
  parts, and the argument after \<open>-k\<close> is the two parts joined by \<open> and \<close>. That
  argument contains a \<open>::\<close> exactly when the second part does: it is free of \<open>::\<close>
  for a selector with a single separator, and keeps every later \<open>::\<close> otherwise. A
  non-empty selector without \<open>::\<close> is the argument after \<open>-k\<close> as it is. What
  follows in the argument list is what follows the file path when no selector is given.
\<close>

theorem selector_joined_with_and:
  "testName \<noteq> [] \<Longrightarrow>
   (includes_str testName ''::'' \<longrightarrow>
      (\<exists>cls meth. testName = cls @ ''::'' @ meth \<and> \<not> includes_str (cls @ '':'') ''::''
         \<and> buildPytestArgs isWindows cfg filePath (Some testName) withQuotes options =
             [quoter isWindows withQuotes (normalizePath isWindows filePath), ''-k'',
              quoter isWindows withQuotes (cls @ '' and '' @ meth)]
             @ drop 1 (buildPytestArgs isWindows cfg filePath None withQuotes options)
         \<and> (includes_str (cls @ '' and '' @ meth) ''::'' \<longleftrightarrow> includes_str meth ''::'')))
   \<and> (\<not> includes_str testName ''::'' \<longrightarrow>
        buildPytestArgs isWindows cfg filePath (Some testName) withQuotes options =
          [quoter isWindows withQuotes (normalizePath isWindows filePath), ''-k'',
           quoter isWindows withQuotes testName]
          @ drop 1 (buildPytestArgs isWindows cfg filePath None withQuotes options))"
proof (intro conjI impI)
  assume t: "testName \<noteq> []" and sep: "includes_str testName ''::''"
  from includes_split [OF sep] obtain cls meth
    where split: "testName = cls @ ''::'' @ meth"
      and first: "\<not> includes_str (cls @ '':'') ''::''" by blast
  have "replace (cls @ ''::'' @ meth) ''::'' '' and '' = cls @ '' and '' @ meth"
    using first by (rule replace_at_first)
  with sep split have "selection testName = cls @ '' and '' @ meth"
    by (simp only: selection_def if_True)
  with t have "buildPytestArgs isWindows cfg filePath (Some testName) withQuotes options =
      [quoter isWindows withQuotes (normalizePath isWindows filePath), ''-k'',
       quoter isWindows withQuotes (cls @ '' and '' @ meth)]
      @ drop 1 (buildPytestArgs isWindows cfg filePath None withQuotes options)"
    by (simp add: buildPytestArgs_selector)
  moreover have "includes_str (cls @ '' and '' @ meth) ''::'' \<longleftrightarrow> includes_str meth ''::''"
    using first by (rule colons_left_iff)
  ultimately show "\<exists>cls meth. testName = cls @ ''::'' @ meth \<and> \<not> includes_str (cls @ '':'') ''::''
         \<and> buildPytestArgs isWindows cfg filePath (Some testName) withQuotes options =
             [quoter isWindows withQuotes (normalizePath isWindows filePath), ''-k'',
              quoter isWindows withQuotes (cls @ '' and '' @ meth)]
             @ drop 1 (buildPytestArgs isWindows cfg filePath None withQuotes options)
         \<and> (includes_str (cls @ '' and '' @ meth) ''::'' \<longleftrightarrow> includes_str meth ''::'')"
    using split first by blast
next
  assume t: "testName \<noteq> []" and nosep: "\<not> includes_str testName ''::''"
  then have "selection testName = testName" by (simp add: selection_def)
  with t show "buildPytestArgs isWindows cfg filePath (Some testName) withQuotes options =
          [quoter isWindows withQuotes (normalizePath isWindows filePath), ''-k'',
           quoter isWindows withQuotes testName]
          @ drop 1 (buildPytestArgs isWindows cfg filePath None withQuotes options)"
    by (simp add: buildPytestArgs_selector)
qed

theorem selector_joined_with_and_witness:
  "buildPytestArgs False defaultConfig ''calc_test.py'' (Some ''TestCalc::test_divide'') True [] =
     [CHR 0x27 # ''calc_test.py'' @ [CHR 0x27], ''-k'',
      CHR 0x27 # ''TestCalc and test_divide'' @ [CHR 0x27], ''-v'']
   \<and> \<not> includes_str ''TestCalc and test_divide'' ''::''
   \<and> buildPytestArgs False defaultConfig ''calc_test.py'' (Some ''test_add'') True [] =
     [CHR 0x27 # ''calc_test.py'' @ [CHR 0x27], ''-k'',
      CHR 0x27 # ''test_add'' @ [CHR 0x27], ''-v'']"
proof -
  have a: "''TestCalc::test_divide'' \<noteq> []" and b: "''test_add'' \<noteq> []" by simp_all
  have c: "\<not> includes_str ''test_add'' ''::''" by simp
  have rest: "drop 1 (buildPytestArgs False defaultConfig ''calc_test.py'' None True []) = [''-v'']"
    by (simp add: buildPytestArgs_def defaultConfig_def Let_def)
  from selector_joined_with_and [OF b, of False defaultConfig "''calc_test.py''" True "[]"] c rest
  have 2: "buildPytestArgs False defaultConfig ''calc_test.py'' (Some ''test_add'') True [] =
     [quote False ''calc_test.py'', ''-k'', quote False ''test_add'', ''-v'']"
    by (simp add: quoter_def normalizePath_def)
  have d: "includes_str ''TestCalc::test_divide'' ''::''" by simp
  from selector_joined_with_and [OF a, of False defaultConfig "''calc_test.py''" True "[]"] d
  obtain cls meth where split: "''TestCalc::test_divide'' = cls @ ''::'' @ meth"
    and first: "\<not> includes_str (cls @ '':'') ''::''"
    and args: "buildPytestArgs False defaultConfig ''calc_test.py'' (Some ''TestCalc::test_divide'') True [] =
             [quoter False True (normalizePath False ''calc_test.py''), ''-k'',
              quoter False True (cls @ '' and '' @ meth)]
             @ drop 1 (buildPytestArgs False defaultConfig ''calc_test.py'' None True [])"
    by blast
  have "cls @ '' and '' @ meth = replace (cls @ ''::'' @ meth) ''::'' '' and ''"
    using replace_at_first [OF first, of meth] by (rule sym)
  also have "\<dots> = replace ''TestCalc::test_divide'' ''::'' '' and ''"
    using split by simp
  also have "\<dots> = ''TestCalc and test_divide''" by simp
  finally have "cls @ '' and '' @ meth = ''TestCalc and test_divide''" .
  with args rest
  have 1: "buildPytestArgs False defaultConfig ''calc_test.py'' (Some ''TestCalc::test_divide'') True [] =
     [quote False ''calc_test.py'', ''-k'', quote False ''TestCalc and test_divide'', ''-v'']"
    by (simp add: quoter_def normalizePath_def)
  from 1 2 show ?thesis by (simp add: quote_def)
qed

text \<open>
  C7 as stated fails: the nested selector \<open>TestOuter::TestInner::test_x\<close> contains
  \<open>::\<close>, and the argument after \<open>-k\<close> is \<open>TestOuter and TestInner::test_x\<close> in
  quotes, which still holds a path-style \<open>::\<close>.
\<close>

theorem nested_selector_keeps_double_colon:
  "includes_str ''TestOuter::TestInner::test_x'' ''::''
   \<and> buildPytestArgs False defaultConfig ''calc_test.py''
         (Some ''TestOuter::TestInner::test_x'') True [] ! 2
       = CHR 0x27 # ''TestOuter and TestInner::test_x'' @ [CHR 0x27]
   \<and> includes_str ''TestOuter and TestInner::test_x'' ''::''"
  by (simp add: buildPytestArgs_def defaultConfig_def Let_def quoter_def quote_def
        normalizePath_def selection_def)

text \<open>
  C10. Only the first \<open>::\<close> of a selector is turned into \<open> and \<close>: a selector
  \<open>a::b::c\<close> (with \<open>a\<close> ending before the first separator) gives the \<open>-k\<close>
  argument \<open>a and b::c\<close>, which still contains a \<open>::\<close>.
\<close>

theorem replace_only_first_separator:
  "\<not> includes_str (a @ '':'') ''::'' \<Longrightarrow>
   selection (a @ ''::'' @ b @ ''::'' @ c) = a @ '' and '' @ b @ ''::'' @ c
   \<and> includes_str (selection (a @ ''::'' @ b @ ''::'' @ c)) ''::''
   \<and> buildPytestArgs isWindows cfg filePath (Some (a @ ''::'' @ b @ ''::'' @ c)) withQuotes options =
       [quoter isWindows withQuotes (normalizePath isWindows filePath), ''-k'',
        quoter isWindows withQuotes (a @ '' and '' @ b @ ''::'' @ c)]
       @ drop 1 (buildPytestArgs isWindows cfg filePath None withQuotes options)"
proof -
  assume first: "\<not> includes_str (a @ '':'') ''::''"
  have inc: "includes_str (a @ ''::'' @ b @ ''::'' @ c) ''::''" by (rule includes_append)
  have sel: "selection (a @ ''::'' @ b @ ''::'' @ c) = a @ '' and '' @ b @ ''::'' @ c"
    using inc replace_at_first [OF first, of "b @ ''::'' @ c"]
    by (simp only: selection_def if_True)
  have "includes_str ((a @ '' and '' @ b) @ ''::'' @ c) ''::''" by (rule includes_append)
  then have still: "includes_str (a @ '' and '' @ b @ ''::'' @ c) ''::''" by simp
  have ne: "a @ ''::'' @ b @ ''::'' @ c \<noteq> []" by simp
  show ?thesis
    using sel still buildPytestArgs_selector [OF ne, of isWindows cfg filePath withQuotes options]
    by simp
qed

theorem replace_only_first_separator_witness:
  "selection ''A::B::C'' = ''A and B::C''
   \<and> buildPytestArgs False defaultConfig ''calc_test.py'' (Some ''A::B::C'') True [] =
       [quote False ''calc_test.py'', ''-k'', quote False ''A and B::C'', ''-v'']"
  using replace_only_first_separator [of "''A''" "''B''" "''C''" False defaultConfig "''calc_test.py''" True "[]"]
  by (simp add: buildPytestArgs_def defaultConfig_def Let_def quoter_def normalizePath_def)

text \<open>
  C2. For the bare selector \<open>test_add\<close> on \<open>calc_test.py\<close> with the settings out of
  the box and no further options, the command holds the default argument \<open>-v\<close>
  twice: \<open>pytestCommand\<close> already ends with the default arguments, and
  \<open>buildPytestArgs\<close> appends them again after the \<open>-k\<close> expression.
\<close>

theorem default_arguments_appear_twice:
  "buildPytestCommand False defaultConfig ''calc_test.py'' (Some ''test_add'') [] =
     ''pytest -v '' @ quote False ''calc_test.py'' @ '' -k '' @ quote False ''test_add'' @ '' -v''
   \<and> pytestCommand defaultConfig = ''pytest -v''
   \<and> length (filter (\<lambda>word. word = ''-v'')
        (split_char (CHR '' '')
           (buildPytestCommand False defaultConfig ''calc_test.py'' (Some ''test_add'') []))) = 2"
  by (simp add: buildPytestCommand_def buildPytestArgs_def pytestCommand_def defaultConfig_def
        Let_def quoter_def quote_def normalizePath_def selection_def)

section \<open>The parser: properties\<close>

lemma isTestFile_sample: "isTestFile ''test_calc.py''"
  by (simp add: isTestFile_def basename_def endsWith_def)

subsection \<open>No cache\<close>


lemma parse_counted_result: "fst (parse_counted w filePath c) = parse w filePath"
  by (simp add: parse_counted_def parse_def parseTestFile_counted_def parseTestFile_def
        parsePythonFile_counted_def parseWithRegex_counted_def Let_def)

lemma parse_counted_calls:
  "snd (parse_counted w filePath c) =
     (if existsSync w filePath \<and> isTestFile filePath
      then c\<lparr>structuralCalls := structuralCalls c + 1,
              patternCalls := patternCalls c + (if parsePythonFile w filePath = [] then 1 else 0)\<rparr>
      else c)"
  by (simp add: parse_counted_def parseTestFile_counted_def
        parsePythonFile_counted_def parseWithRegex_counted_def)

text \<open>
  C3 (as amended). There is no cache: \<open>parse\<close> parses anew on every call. Two calls in
  a row on the same unchanged file return equal trees, and for a file that exists and has
  a test-file name each call runs the structural parser once, so the second call raises
  its call count a second time.
\<close>

theorem parse_twice_parses_twice:
  "fst (parseTwice w filePath c) = (parse w filePath, parse w filePath)
   \<and> (existsSync w filePath \<and> isTestFile filePath \<longrightarrow>
        structuralCalls (snd (parseTwice w filePath c)) = structuralCalls c + 2
        \<and> structuralCalls (snd (parse_counted w filePath c)) = structuralCalls c + 1)"
proof -
  obtain r1 c1 where 1: "parse_counted w filePath c = (r1, c1)" by (cases "parse_counted w filePath c")
  obtain r2 c2 where 2: "parse_counted w filePath c1 = (r2, c2)" by (cases "parse_counted w filePath c1")
  have tw: "parseTwice w filePath c = ((r1, r2), c2)" by (simp add: parseTwice_def 1 2)
  have r1: "r1 = parse w filePath" using parse_counted_result [of w filePath c] 1 by simp
  have r2: "r2 = parse w filePath" using parse_counted_result [of w filePath c1] 2 by simp
  have c1: "c1 = snd (parse_counted w filePath c)" using 1 by simp
  have c2: "c2 = snd (parse_counted w filePath c1)" using 2 by simp
  show ?thesis
    unfolding tw using r1 r2 by (simp add: c2 c1 parse_counted_calls)
qed


theorem parse_twice_parses_twice_witness:
  "fst (parseTwice calcWorld ''test_calc.py'' \<lparr>structuralCalls = 0, patternCalls = 0\<rparr>)
     = (parse calcWorld ''test_calc.py'', parse calcWorld ''test_calc.py'')
   \<and> structuralCalls (snd (parseTwice calcWorld ''test_calc.py'' \<lparr>structuralCalls = 0, patternCalls = 0\<rparr>)) = 2"
  using parse_twice_parses_twice [of calcWorld "''test_calc.py''" "\<lparr>structuralCalls = 0, patternCalls = 0\<rparr>"]
        isTestFile_sample
  by (simp add: calcWorld_def)

text \<open>
  C3 as stated fails: after one \<open>parse\<close> of \<open>test_calc.py\<close> the structural parser has
  run once, after the second \<open>parse\<close> of the same unchanged file it has run twice.
\<close>

theorem second_parse_runs_structural_parser_again:
  "structuralCalls (snd (parse_counted calcWorld ''test_calc.py'' \<lparr>structuralCalls = 0, patternCalls = 0\<rparr>)) = 1
   \<and> structuralCalls (snd (parseTwice calcWorld ''test_calc.py'' \<lparr>structuralCalls = 0, patternCalls = 0\<rparr>)) = 2"
  by (simp add: parseTwice_def parse_counted_def parseTestFile_counted_def isTestFile_sample
        parsePythonFile_counted_def parseWithRegex_counted_def calcWorld_def split: prod.splits)

subsection \<open>Order of siblings\<close>


lemma scanLine_line: "scanLine i ln = Some n \<Longrightarrow> line n = int i + 1"
  by (auto simp: scanLine_def regexNode_def Let_def split: option.splits)

lemma scanLines_above: "n \<in> set (scanLines i ls) \<Longrightarrow> int i < line n"
proof (induction ls arbitrary: i)
  case Nil
  then show ?case by simp
next
  case (Cons ln ls)
  show ?case
  proof (cases "scanLine i ln")
    case None
    with Cons.prems have "n \<in> set (scanLines (i + 1) ls)" by simp
    from Cons.IH [OF this] show ?thesis by simp
  next
    case (Some m)
    with Cons.prems have "n = m \<or> n \<in> set (scanLines (i + 1) ls)" by simp
    then show ?thesis
    proof
      assume "n = m"
      with Some scanLine_line show ?thesis by fastforce
    next
      assume "n \<in> set (scanLines (i + 1) ls)"
      from Cons.IH [OF this] show ?thesis by simp
    qed
  qed
qed

lemma scanLines_sorted: "sorted (map line (scanLines i ls))"
proof (induction ls arbitrary: i)
  case Nil
  show ?case by simp
next
  case (Cons ln ls)
  show ?case
  proof (cases "scanLine i ln")
    case None
    with Cons.IH [of "i + 1"] show ?thesis by simp
  next
    case (Some m)
    have "\<forall>n\<in>set (scanLines (i + 1) ls). line m \<le> line n"
    proof
      fix n assume "n \<in> set (scanLines (i + 1) ls)"
      from scanLines_above [OF this] scanLine_line [OF Some] show "line m \<le> line n" by simp
    qed
    with Some Cons.IH [of "i + 1"] show ?thesis by simp
  qed
qed

lemma processTestNodes_sorted: "sorted (map line (processTestNodes ts))"
  by (simp add: processTestNodes_def split: prod.splits)

lemma parse_sorted: "sorted (map line (parse w filePath))"
proof -
  have a: "sorted (map line (parsePythonFile w filePath))"
    by (simp add: parsePythonFile_def parsePythonFile_try_def processTestNodes_sorted
          split: option.splits sum.splits)
  have b: "sorted (map line (parseWithRegex w filePath))"
    by (simp add: parseWithRegex_def parseWithRegex_try_def scanLines_sorted split: option.splits)
  from a b show ?thesis by (simp add: parse_def parseTestFile_def Let_def)
qed

lemma firstPass_flat:
  "(\<forall>t\<in>set ts. nclass (toNode t) = None) \<Longrightarrow>
   firstPass ts processedTests testsByClass = (processedTests @ map toNode ts, testsByClass)"
  by (induction ts arbitrary: processedTests) (simp_all add: Let_def)

lemma processTestNodes_flat:
  "(\<forall>t\<in>set ts. nclass (toNode t) = None) \<Longrightarrow>
   processTestNodes ts = sort_key line (map toNode ts)"
  by (simp add: processTestNodes_def firstPass_flat)

lemma addMethod_map_of:
  "map_of (addMethod k n B) =
     (map_of B)(k \<mapsto> (case map_of B k of None \<Rightarrow> [n] | Some ms \<Rightarrow> ms @ [n]))"
  by (induction B) (auto simp: fun_eq_iff)

lemma addMethod_keys: "set (map fst (addMethod k n B)) = insert k (set (map fst B))"
proof (induction B)
  case Nil
  show ?case by simp
next
  case (Cons kv B)
  obtain k' ms where kv: "kv = (k', ms)" by (cases kv)
  show ?case
  proof (cases "k' = k")
    case True
    with kv show ?thesis by auto
  next
    case False
    with kv Cons.IH show ?thesis by auto
  qed
qed

lemma addMethod_distinct:
  "distinct (map fst B) \<Longrightarrow> distinct (map fst (addMethod k n B))"
proof (induction B)
  case Nil
  show ?case by simp
next
  case (Cons kv B)
  obtain k' ms where kv: "kv = (k', ms)" by (cases kv)
  show ?case
  proof (cases "k' = k")
    case True
    with Cons.prems kv show ?thesis by simp
  next
    case False
    from Cons.prems kv have d: "distinct (map fst B)" and nin: "k' \<notin> set (map fst B)" by simp_all
    from nin False have "k' \<notin> set (map fst (addMethod k n B))"
      unfolding addMethod_keys by simp
    with Cons.IH [OF d] kv False show ?thesis by simp
  qed
qed

lemma firstPass_groups:
  "distinct (map fst B) \<Longrightarrow> firstPass ts P B = (P', B') \<Longrightarrow>
   distinct (map fst B')
   \<and> (\<forall>k. map_of B' k =
          (if methodsOf k ts = [] then map_of B k
           else Some ((case map_of B k of None \<Rightarrow> [] | Some ms \<Rightarrow> ms) @ methodsOf k ts)))
   \<and> P' = P @ filter (\<lambda>n. nclass n = None) (map toNode ts)"
proof (induction ts arbitrary: P B)
  case Nil
  then show ?case by (simp add: methodsOf_def)
next
  case (Cons t ts)
  show ?case
  proof (cases "nclass (toNode t)")
    case None
    with Cons.prems(2) have fp: "firstPass ts (P @ [toNode t]) B = (P', B')" by (simp add: Let_def)
    from None have m: "\<And>k. methodsOf k (t # ts) = methodsOf k ts" by (simp add: methodsOf_def)
    from Cons.IH [OF Cons.prems(1) fp] None show ?thesis by (simp add: m)
  next
    case (Some c)
    with Cons.prems(2) have fp: "firstPass ts P (addMethod c (toNode t) B) = (P', B')"
      by (simp add: Let_def)
    from Some have m: "\<And>k. methodsOf k (t # ts) =
        (if k = c then toNode t # methodsOf k ts else methodsOf k ts)"
      by (auto simp: methodsOf_def)
    from Cons.IH [OF addMethod_distinct [OF Cons.prems(1)] fp] Some
    show ?thesis by (auto simp: m addMethod_map_of split: option.splits)
  qed
qed

lemma secondPass_set:
  "n \<in> set (secondPass ts B P) \<Longrightarrow>
   n \<in> set P \<or> (\<exists>k ms l. (k, ms) \<in> set B \<and>
      (n = Node k l None ''class'' None k False False None ms \<or> n \<in> set ms))"
proof (induction B arbitrary: P)
  case Nil
  then show ?case by simp
next
  case (Cons kv B)
  obtain k ms where kv: "kv = (k, ms)" by (cases kv)
  show ?case
  proof (cases "find (\<lambda>test. raw_name test = k \<and> raw_type test = Some ''class'') ts")
    case None
    with Cons.prems kv have "n \<in> set (secondPass ts B (P @ ms))" by simp
    from Cons.IH [OF this] kv show ?thesis by auto
  next
    case (Some classNode)
    with Cons.prems kv have "n \<in> set (secondPass ts B
       (P @ [Node k (lineOr1 (raw_line classNode)) None ''class'' None k False False None ms]))"
      by simp
    from Cons.IH [OF this] kv show ?thesis by auto
  qed
qed

lemma children_toNode: "children (toNode t) = []"
  by (simp add: toNode_def)

lemma processTestNodes_children:
  assumes "n \<in> set (processTestNodes ts)" and "children n \<noteq> []"
  shows "children n = methodsOf (name n) ts"
proof -
  obtain P B where fp: "firstPass ts [] [] = (P, B)" by (cases "firstPass ts [] []")
  have "distinct (map fst ([] :: (string \<times> node list) list))" by simp
  from firstPass_groups [OF this fp]
  have d: "distinct (map fst B)"
    and g: "\<And>k. map_of B k = (if methodsOf k ts = [] then None else Some (methodsOf k ts))"
    and P: "P = filter (\<lambda>n. nclass n = None) (map toNode ts)" by simp_all
  from assms(1) fp have "n \<in> set (secondPass ts B P)" by (simp add: processTestNodes_def)
  from secondPass_set [OF this]
  consider "n \<in> set P"
    | k ms l where "(k, ms) \<in> set B" "n = Node k l None ''class'' None k False False None ms"
    | k ms where "(k, ms) \<in> set B" "n \<in> set ms"
    by blast
  then show ?thesis
  proof cases
    case 1
    with P have "\<exists>t. n = toNode t" by auto
    with assms(2) children_toNode show ?thesis by auto
  next
    case 2
    from d 2(1) have "map_of B k = Some ms" by simp
    with g [of k] have "ms = methodsOf k ts" by (simp split: if_splits)
    with 2(2) show ?thesis by simp
  next
    case 3
    from d 3(1) have "map_of B k = Some ms" by simp
    with g [of k] have "ms = methodsOf k ts" by (simp split: if_splits)
    with 3(2) have "\<exists>t. n = toNode t" by (auto simp: methodsOf_def)
    with assms(2) children_toNode show ?thesis by auto
  qed
qed

text \<open>
  C4 (as amended). In every tree \<open>parse\<close> returns, the top-level list is sorted by line
  ascending; \<open>n\<close> test declarations none of which names a class give exactly the \<open>n\<close>
  nodes, sorted by line; a class node's children are the methods reported for that class
  in the order in which the structural parser reported them.
\<close>

theorem top_level_sorted_children_in_reported_order:
  "sorted (map line (parse w filePath))
   \<and> ((\<forall>t\<in>set ts. nclass (toNode t) = None) \<longrightarrow>
        processTestNodes ts = sort_key line (map toNode ts)
        \<and> length (processTestNodes ts) = length ts)
   \<and> (\<forall>n\<in>set (processTestNodes ts). children n \<noteq> [] \<longrightarrow> children n = methodsOf (name n) ts)"
  using parse_sorted [of w filePath] processTestNodes_flat [of ts] processTestNodes_children [of _ ts]
  by simp


lemma processTestNodes_classTests:
  "processTestNodes classTests =
     [Node ''TestCalc'' 1 None ''class'' None ''TestCalc'' False False (Some []) [],
      Node ''TestCalc'' 1 None ''class'' None ''TestCalc'' False False None
        [Node ''test_b'' 5 None ''method'' (Some ''TestCalc'') ''TestCalc::test_b'' False False (Some []) [],
         Node ''test_a'' 3 None ''method'' (Some ''TestCalc'') ''TestCalc::test_a'' False False (Some []) []]]"
  by (simp add: processTestNodes_def classTests_def toNode_def lineOr1_def strOr_def Let_def)

lemma parse_classWorld:
  "parse classWorld ''test_calc.py'' = processTestNodes classTests"
  by (simp add: parse_def parseTestFile_def isTestFile_sample parsePythonFile_def
        parsePythonFile_try_def classWorld_def calcWorld_def processTestNodes_classTests)

text \<open>
  C4 as stated fails: when the structural parser reports \<open>test_b\<close> (line 5) before
  \<open>test_a\<close> (line 3), the children of the class node keep that order.
\<close>

theorem children_not_sorted:
  "\<not> sorted (map line (children (parse classWorld ''test_calc.py'' ! 1)))"
  by (simp add: parse_classWorld processTestNodes_classTests)

theorem top_level_sorted_children_in_reported_order_witness:
  "sorted (map line (parse classWorld ''test_calc.py''))
   \<and> processTestNodes [addTest] = [toNode addTest]
   \<and> map name (children (processTestNodes classTests ! 1)) = [''test_b'', ''test_a'']"
proof -
  have flat: "\<forall>t\<in>set [addTest]. nclass (toNode t) = None"
    by (simp add: addTest_def toNode_def)
  have p: "processTestNodes classTests = parse classWorld ''test_calc.py''"
    by (simp add: parse_classWorld)
  have m: "parse classWorld ''test_calc.py'' ! 1 \<in> set (processTestNodes classTests)"
    by (simp add: parse_classWorld processTestNodes_classTests)
  have c: "children (parse classWorld ''test_calc.py'' ! 1) \<noteq> []"
    by (simp add: parse_classWorld processTestNodes_classTests)
  have n: "name (parse classWorld ''test_calc.py'' ! 1) = ''TestCalc''"
    by (simp add: parse_classWorld processTestNodes_classTests)
  from top_level_sorted_children_in_reported_order [of classWorld "''test_calc.py''" "[addTest]"] flat
  have 1: "sorted (map line (parse classWorld ''test_calc.py''))"
    and 2: "processTestNodes [addTest] = [toNode addTest]" by simp_all
  from top_level_sorted_children_in_reported_order [of classWorld "''test_calc.py''" classTests] m c
  have "children (parse classWorld ''test_calc.py'' ! 1)
          = methodsOf (name (parse classWorld ''test_calc.py'' ! 1)) classTests" by blast
  then have 3: "map name (children (processTestNodes classTests ! 1)) = [''test_b'', ''test_a'']"
    unfolding p n by (simp add: methodsOf_def classTests_def toNode_def)
  from 1 2 3 show ?thesis by simp
qed

subsection \<open>The pattern parser\<close>



lemma run_then:
  "(\<forall>x\<in>set a. P x) \<Longrightarrow> b = [] \<or> \<not> P (hd b) \<Longrightarrow>
   takeWhile P (a @ b) = a \<and> dropWhile P (a @ b) = b"
  by (cases b) auto

lemma afterLiteral_append: "afterLiteral p (p @ s) = Some s"
proof -
  have "startsWith (p @ s) p" by (induction p) auto
  then show ?thesis by (simp add: afterLiteral_def)
qed

lemma space_not_word: "isSpace c \<Longrightarrow> \<not> isWordChar c"
  by (auto simp: isSpace_def isWordChar_def)

lemma spacedName_accepts:
  assumes sp: "sp \<noteq> []" "\<forall>c\<in>set sp. isSpace c"
      and pre: "pre \<noteq> []" "\<not> isSpace (hd pre)"
      and nm: "\<forall>c\<in>set nm. isWordChar c"
      and sp2: "\<forall>c\<in>set sp2. isSpace c"
      and closer: "closer \<in> set closers" "\<not> isSpace closer" "\<not> isWordChar closer"
  shows "spacedName pre closers (sp @ pre @ nm @ sp2 @ closer # rest) = Some (pre @ nm)"
proof -
  let ?tail = "sp2 @ closer # rest"
  from pre have "\<not> isSpace (hd (pre @ nm @ ?tail))" by simp
  with sp(2) have 1: "takeWhile isSpace (sp @ pre @ nm @ ?tail) = sp"
    and 2: "dropWhile isSpace (sp @ pre @ nm @ ?tail) = pre @ nm @ ?tail"
    using run_then [of sp isSpace "pre @ nm @ ?tail"] by simp_all
  have "\<not> isWordChar (hd ?tail)"
    using sp2 closer(3) space_not_word by (cases sp2) auto
  with nm have 3: "takeWhile isWordChar (nm @ ?tail) = nm"
    and 4: "dropWhile isWordChar (nm @ ?tail) = ?tail"
    using run_then [of nm isWordChar ?tail] by simp_all
  from sp2 closer(2) have 5: "dropWhile isSpace ?tail = closer # rest"
    using run_then [of sp2 isSpace "closer # rest"] by simp
  show ?thesis
    unfolding spacedName_def 1 2 afterLiteral_append using sp(1) closer(1)
    by (simp add: 3 4 5)
qed

lemma functionMatch_accepts:
  assumes "sp \<noteq> []" "\<forall>c\<in>set sp. isSpace c" "\<forall>c\<in>set nm. isWordChar c" "\<forall>c\<in>set sp2. isSpace c"
  shows "functionMatch (''def'' @ sp @ ''test_'' @ nm @ sp2 @ ''('' @ rest) = Some (''test_'' @ nm)"
proof -
  have "spacedName ''test_'' [CHR ''(''] (sp @ ''test_'' @ nm @ sp2 @ CHR ''('' # rest)
          = Some (''test_'' @ nm)"
    using assms by (intro spacedName_accepts) (simp_all add: isSpace_def isWordChar_def)
  then show ?thesis
    unfolding functionMatch_def using afterLiteral_append [of "''def''"] by simp
qed

lemma classMatch_accepts:
  assumes "sp \<noteq> []" "\<forall>c\<in>set sp. isSpace c" "\<forall>c\<in>set nm. isWordChar c" "\<forall>c\<in>set sp2. isSpace c"
      and "closer = CHR ''('' \<or> closer = CHR '':''"
  shows "classMatch (''class'' @ sp @ ''Test'' @ nm @ sp2 @ closer # rest) = Some (''Test'' @ nm)"
proof -
  have p1: "''Test'' \<noteq> []" and p2: "\<not> isSpace (hd ''Test'')" by (simp_all add: isSpace_def)
  from assms(5) have c1: "closer \<in> set [CHR ''('', CHR '':'']" by auto
  from assms(5) have c2: "\<not> isSpace closer"
  proof
    assume "closer = CHR ''(''" then show ?thesis by (simp add: isSpace_def)
  next
    assume "closer = CHR '':''" then show ?thesis by (simp add: isSpace_def)
  qed
  from assms(5) have c3: "\<not> isWordChar closer"
  proof
    assume "closer = CHR ''(''" then show ?thesis by (simp add: isWordChar_def)
  next
    assume "closer = CHR '':''" then show ?thesis by (simp add: isWordChar_def)
  qed
  have "spacedName ''Test'' [CHR ''('', CHR '':''] (sp @ ''Test'' @ nm @ sp2 @ closer # rest)
          = Some (''Test'' @ nm)"
    using assms(1,2) p1 p2 assms(3,4) c1 c2 c3 by (rule spacedName_accepts)
  then show ?thesis
    unfolding classMatch_def using afterLiteral_append [of "''class''"] by simp
qed

lemma asyncFunctionMatch_accepts:
  assumes "sp0 \<noteq> []" "\<forall>c\<in>set sp0. isSpace c"
      and "sp \<noteq> []" "\<forall>c\<in>set sp. isSpace c" "\<forall>c\<in>set nm. isWordChar c" "\<forall>c\<in>set sp2. isSpace c"
  shows "asyncFunctionMatch (''async'' @ sp0 @ ''def'' @ sp @ ''test_'' @ nm @ sp2 @ ''('' @ rest)
           = Some (''test_'' @ nm)"
proof -
  let ?tail = "sp @ ''test_'' @ nm @ sp2 @ CHR ''('' # rest"
  have s: "spacedName ''test_'' [CHR ''(''] ?tail = Some (''test_'' @ nm)"
    using assms(3-6) by (intro spacedName_accepts) (simp_all add: isSpace_def isWordChar_def)
  have "\<not> isSpace (hd (''def'' @ ?tail))" by (simp add: isSpace_def)
  with assms(2) have 1: "takeWhile isSpace (sp0 @ ''def'' @ ?tail) = sp0"
    and 2: "dropWhile isSpace (sp0 @ ''def'' @ ?tail) = ''def'' @ ?tail"
    using run_then [of sp0 isSpace "''def'' @ ?tail"] by simp_all
  have a: "afterLiteral ''async'' (''async'' @ sp0 @ ''def'' @ ?tail) = Some (sp0 @ ''def'' @ ?tail)"
    by (rule afterLiteral_append)
  have d: "afterLiteral ''def'' (''def'' @ ?tail) = Some ?tail"
    by (rule afterLiteral_append)
  have "asyncFunctionMatch (''async'' @ sp0 @ ''def'' @ ?tail) = Some (''test_'' @ nm)"
    unfolding asyncFunctionMatch_def a using assms(1) by (simp only: option.case 1 2 d s if_False)
  then show ?thesis by simp
qed

lemma trim_keeps_body:
  assumes "\<forall>c\<in>set indent. isSpace c" and "body \<noteq> []"
      and "\<not> isSpace (hd body)" and "\<not> isSpace (last body)"
  shows "\<exists>r. trim (indent @ body @ rest) = body @ r"
proof -
  from assms(2,3) have "\<not> isSpace (hd (body @ rest))" by simp
  with assms(1) have 1: "dropWhile isSpace (indent @ body @ rest) = body @ rest"
    using run_then [of indent isSpace "body @ rest"] by simp
  show ?thesis
  proof (cases "\<forall>c\<in>set (rev rest). isSpace c")
    case True
    moreover from assms(2,4) have "\<not> isSpace (hd (rev body))" by (simp add: hd_rev)
    ultimately have "dropWhile isSpace (rev rest @ rev body) = rev body"
      using run_then [of "rev rest" isSpace "rev body"] by blast
    then have "trim (indent @ body @ rest) = body @ []" by (simp add: trim_def 1)
    then show ?thesis by blast
  next
    case False
    then have "dropWhile isSpace (rev rest @ rev body) = dropWhile isSpace (rev rest) @ rev body"
      by (auto simp: dropWhile_append)
    then have "trim (indent @ body @ rest) = body @ rev (dropWhile isSpace (rev rest))"
      by (simp add: trim_def 1)
    then show ?thesis by blast
  qed
qed

lemma functionMatch_not_class: "functionMatch (''class'' @ s) = None"
  by (simp add: functionMatch_def afterLiteral_def)

lemma functionMatch_not_async: "functionMatch (''async'' @ s) = None"
  by (simp add: functionMatch_def afterLiteral_def)

lemma classMatch_not_async: "classMatch (''async'' @ s) = None"
  by (simp add: classMatch_def afterLiteral_def)

lemma scanLine_function:
  assumes "\<forall>c\<in>set indent. isSpace c"
      and "sp \<noteq> []" "\<forall>c\<in>set sp. isSpace c" "\<forall>c\<in>set nm. isWordChar c" "\<forall>c\<in>set sp2. isSpace c"
  shows "scanLine i (indent @ ''def'' @ sp @ ''test_'' @ nm @ sp2 @ ''('' @ rest)
           = Some (regexNode (''test_'' @ nm) i ''function'' False)"
proof -
  let ?body = "''def'' @ sp @ ''test_'' @ nm @ sp2 @ ''(''"
  have "\<exists>r. trim (indent @ ?body @ rest) = ?body @ r"
    using assms(1) by (intro trim_keeps_body) (simp_all add: isSpace_def)
  then obtain r where t: "trim (indent @ ''def'' @ sp @ ''test_'' @ nm @ sp2 @ ''('' @ rest)
      = ''def'' @ sp @ ''test_'' @ nm @ sp2 @ ''('' @ r" by auto
  show ?thesis
    unfolding scanLine_def t using functionMatch_accepts [OF assms(2-5), of r]
    by (simp add: Let_def)
qed

lemma scanLine_class:
  assumes "\<forall>c\<in>set indent. isSpace c"
      and "sp \<noteq> []" "\<forall>c\<in>set sp. isSpace c" "\<forall>c\<in>set nm. isWordChar c" "\<forall>c\<in>set sp2. isSpace c"
      and "closer = CHR ''('' \<or> closer = CHR '':''"
  shows "scanLine i (indent @ ''class'' @ sp @ ''Test'' @ nm @ sp2 @ closer # rest)
           = Some (regexNode (''Test'' @ nm) i ''class'' False)"
proof -
  let ?body = "''class'' @ sp @ ''Test'' @ nm @ sp2 @ [closer]"
  from assms(6) have "\<not> isSpace closer"
  proof
    assume "closer = CHR ''(''" then show ?thesis by (simp add: isSpace_def)
  next
    assume "closer = CHR '':''" then show ?thesis by (simp add: isSpace_def)
  qed
  then have "\<not> isSpace (last ?body)" by simp
  moreover have "?body \<noteq> []" and "\<not> isSpace (hd ?body)" by (simp_all add: isSpace_def)
  ultimately have "\<exists>r. trim (indent @ ?body @ rest) = ?body @ r"
    using assms(1) by (intro trim_keeps_body)
  then obtain r where t: "trim (indent @ ''class'' @ sp @ ''Test'' @ nm @ sp2 @ closer # rest)
      = ''class'' @ sp @ ''Test'' @ nm @ sp2 @ closer # r" by auto
  have f: "functionMatch (''class'' @ sp @ ''Test'' @ nm @ sp2 @ closer # r) = None"
    by (rule functionMatch_not_class)
  show ?thesis
    unfolding scanLine_def t Let_def f using classMatch_accepts [OF assms(2-6), of r]
    by simp
qed

lemma scanLine_async:
  assumes "\<forall>c\<in>set indent. isSpace c" and "sp0 \<noteq> []" "\<forall>c\<in>set sp0. isSpace c"
      and "sp \<noteq> []" "\<forall>c\<in>set sp. isSpace c" "\<forall>c\<in>set nm. isWordChar c" "\<forall>c\<in>set sp2. isSpace c"
  shows "scanLine i (indent @ ''async'' @ sp0 @ ''def'' @ sp @ ''test_'' @ nm @ sp2 @ ''('' @ rest)
           = Some (regexNode (''test_'' @ nm) i ''function'' True)"
proof -
  let ?body = "''async'' @ sp0 @ ''def'' @ sp @ ''test_'' @ nm @ sp2 @ ''(''"
  have "\<exists>r. trim (indent @ ?body @ rest) = ?body @ r"
    using assms(1) by (intro trim_keeps_body) (simp_all add: isSpace_def)
  then obtain r where t: "trim (indent @ ''async'' @ sp0 @ ''def'' @ sp @ ''test_'' @ nm @ sp2 @ ''('' @ rest)
      = ''async'' @ sp0 @ ''def'' @ sp @ ''test_'' @ nm @ sp2 @ ''('' @ r" by auto
  have f: "functionMatch (''async'' @ sp0 @ ''def'' @ sp @ ''test_'' @ nm @ sp2 @ ''('' @ r) = None"
    by (rule functionMatch_not_async)
  have c: "classMatch (''async'' @ sp0 @ ''def'' @ sp @ ''test_'' @ nm @ sp2 @ ''('' @ r) = None"
    by (rule classMatch_not_async)
  show ?thesis
    unfolding scanLine_def t Let_def f c using asyncFunctionMatch_accepts [OF assms(2-7), of r]
    by simp
qed

lemma scanLines_enumerate:
  "scanLines i ls = List.map_filter (\<lambda>(j, ln). scanLine j ln) (enumerate i ls)"
proof (induction ls arbitrary: i)
  case Nil
  show ?case by (simp add: map_filter_simps)
next
  case (Cons ln ls)
  from Cons.IH [of "Suc i"] show ?case
    by (cases "scanLine i ln") (simp_all add: map_filter_simps)
qed

lemma parse_falls_back:
  assumes "existsSync w filePath" and "isTestFile filePath"
      and "\<forall>r. parsePythonFile_try w filePath = Inr r \<longrightarrow> r = []"
  shows "parse w filePath = parseWithRegex w filePath"
proof -
  from assms(3) have "parsePythonFile w filePath = []"
    by (cases "parsePythonFile_try w filePath") (simp_all add: parsePythonFile_def)
  with assms(1,2) show ?thesis by (simp add: parse_def parseTestFile_def)
qed


text \<open>
  C6. When the file exists, has a test-file name, and the structural parser fails or
  yields no entity, \<open>parse\<close> returns what the pattern parser returns. The pattern parser
  returns the empty list on an unreadable file; on a readable one it returns, in order, one
  node for each line that \<open>scanLine\<close> accepts. \<open>scanLine\<close> accepts every indented
  \<open>def test_...(\<close>, \<open>async def test_...(\<close> and \<open>class Test...:\<close> or
  \<open>class Test...(\<close> line, with the declared name and the 1-based line number.
\<close>

theorem pattern_parser_fallback:
  "(existsSync w filePath \<and> isTestFile filePath
      \<and> (\<forall>r. parsePythonFile_try w filePath = Inr r \<longrightarrow> r = [])
    \<longrightarrow> parse w filePath = parseWithRegex w filePath)
   \<and> (readFileSync w filePath = None \<longrightarrow> parseWithRegex w filePath = [])
   \<and> (readFileSync w filePath = Some content \<longrightarrow>
        parseWithRegex w filePath =
          List.map_filter (\<lambda>(i, ln). scanLine i ln) (enumerate 0 (split_char (CHR 0x0A) content)))
   \<and> ((\<forall>c\<in>set indent. isSpace c) \<and> sp0 \<noteq> [] \<and> (\<forall>c\<in>set sp0. isSpace c)
        \<and> sp \<noteq> [] \<and> (\<forall>c\<in>set sp. isSpace c)
        \<and> (\<forall>c\<in>set nm. isWordChar c) \<and> (\<forall>c\<in>set sp2. isSpace c)
      \<longrightarrow> scanLine i (indent @ ''def'' @ sp @ ''test_'' @ nm @ sp2 @ ''('' @ rest)
            = Some (Node (''test_'' @ nm) (int i + 1) None ''function'' None (''test_'' @ nm)
                         False False None [])
        \<and> scanLine i (indent @ ''async'' @ sp0 @ ''def'' @ sp @ ''test_'' @ nm @ sp2 @ ''('' @ rest)
            = Some (Node (''test_'' @ nm) (int i + 1) None ''function'' None (''test_'' @ nm)
                         False True None [])
        \<and> scanLine i (indent @ ''class'' @ sp @ ''Test'' @ nm @ sp2 @ '':'' @ rest)
            = Some (Node (''Test'' @ nm) (int i + 1) None ''class'' None (''Test'' @ nm)
                         False False None [])
        \<and> scanLine i (indent @ ''class'' @ sp @ ''Test'' @ nm @ sp2 @ ''('' @ rest)
            = Some (Node (''Test'' @ nm) (int i + 1) None ''class'' None (''Test'' @ nm)
                         False False None []))"
proof (intro conjI impI)
  assume "existsSync w filePath \<and> isTestFile filePath
      \<and> (\<forall>r. parsePythonFile_try w filePath = Inr r \<longrightarrow> r = [])"
  then show "parse w filePath = parseWithRegex w filePath"
    using parse_falls_back by blast
next
  assume "readFileSync w filePath = None"
  then show "parseWithRegex w filePath = []"
    by (simp add: parseWithRegex_def parseWithRegex_try_def)
next
  assume "readFileSync w filePath = Some content"
  then show "parseWithRegex w filePath =
          List.map_filter (\<lambda>(i, ln). scanLine i ln) (enumerate 0 (split_char (CHR 0x0A) content))"
    by (simp add: parseWithRegex_def parseWithRegex_try_def scanLines_enumerate)
next
  assume a: "(\<forall>c\<in>set indent. isSpace c) \<and> sp0 \<noteq> [] \<and> (\<forall>c\<in>set sp0. isSpace c)
        \<and> sp \<noteq> [] \<and> (\<forall>c\<in>set sp. isSpace c)
        \<and> (\<forall>c\<in>set nm. isWordChar c) \<and> (\<forall>c\<in>set sp2. isSpace c)"
  then show "scanLine i (indent @ ''def'' @ sp @ ''test_'' @ nm @ sp2 @ ''('' @ rest)
            = Some (Node (''test_'' @ nm) (int i + 1) None ''function'' None (''test_'' @ nm)
                         False False None [])"
    using scanLine_function [of indent sp nm sp2 i rest] by (simp add: regexNode_def)
next
  assume a: "(\<forall>c\<in>set indent. isSpace c) \<and> sp0 \<noteq> [] \<and> (\<forall>c\<in>set sp0. isSpace c)
        \<and> sp \<noteq> [] \<and> (\<forall>c\<in>set sp. isSpace c)
        \<and> (\<forall>c\<in>set nm. isWordChar c) \<and> (\<forall>c\<in>set sp2. isSpace c)"
  then show "scanLine i (indent @ ''async'' @ sp0 @ ''def'' @ sp @ ''test_'' @ nm @ sp2 @ ''('' @ rest)
            = Some (Node (''test_'' @ nm) (int i + 1) None ''function'' None (''test_'' @ nm)
                         False True None [])"
    using scanLine_async [of indent sp0 sp nm sp2 i rest] by (simp add: regexNode_def)
next
  assume a: "(\<forall>c\<in>set indent. isSpace c) \<and> sp0 \<noteq> [] \<and> (\<forall>c\<in>set sp0. isSpace c)
        \<and> sp \<noteq> [] \<and> (\<forall>c\<in>set sp. isSpace c)
        \<and> (\<forall>c\<in>set nm. isWordChar c) \<and> (\<forall>c\<in>set sp2. isSpace c)"
  then show "scanLine i (indent @ ''class'' @ sp @ ''Test'' @ nm @ sp2 @ '':'' @ rest)
            = Some (Node (''Test'' @ nm) (int i + 1) None ''class'' None (''Test'' @ nm)
                         False False None [])"
    using scanLine_class [of indent sp nm sp2 "CHR '':''" i rest] by (simp add: regexNode_def)
next
  assume a: "(\<forall>c\<in>set indent. isSpace c) \<and> sp0 \<noteq> [] \<and> (\<forall>c\<in>set sp0. isSpace c)
        \<and> sp \<noteq> [] \<and> (\<forall>c\<in>set sp. isSpace c)
        \<and> (\<forall>c\<in>set nm. isWordChar c) \<and> (\<forall>c\<in>set sp2. isSpace c)"
  then show "scanLine i (indent @ ''class'' @ sp @ ''Test'' @ nm @ sp2 @ ''('' @ rest)
            = Some (Node (''Test'' @ nm) (int i + 1) None ''class'' None (''Test'' @ nm)
                         False False None [])"
    using scanLine_class [of indent sp nm sp2 "CHR ''(''" i rest] by (simp add: regexNode_def)
qed

lemma noPython_content:
  "readFileSync noPythonWorld ''test_calc.py'' = Some (''class TestCalc:''
        @ [CHR 0x0A] @ ''    def test_add(self):''
        @ [CHR 0x0A] @ ''        pass''
        @ [CHR 0x0A] @ ''async def test_later():'')"
  by (simp add: noPythonWorld_def calcWorld_def)

lemma noPython_lines:
  "split_char (CHR 0x0A) (''class TestCalc:''
        @ [CHR 0x0A] @ ''    def test_add(self):''
        @ [CHR 0x0A] @ ''        pass''
        @ [CHR 0x0A] @ ''async def test_later():'')
   = [''class TestCalc:'', ''    def test_add(self):'', ''        pass'', ''async def test_later():'']"
  by simp

lemma isWord_add: "\<forall>c\<in>set ''add''. isWordChar c"
  by (simp add: isWordChar_def)

lemma isWord_later: "\<forall>c\<in>set ''later''. isWordChar c"
  by (simp add: isWordChar_def)

lemma isWord_Calc: "\<forall>c\<in>set ''Calc''. isWordChar c"
  by (simp add: isWordChar_def)

lemma isSpace_indent: "\<forall>c\<in>set ''    ''. isSpace c"
  by (simp add: isSpace_def)

lemma isSpace_one: "\<forall>c\<in>set '' ''. isSpace c"
  by (simp add: isSpace_def)

lemma scanLine_pass: "scanLine i ''        pass'' = None"
  by (simp add: scanLine_def trim_def isSpace_def functionMatch_def classMatch_def
        asyncFunctionMatch_def afterLiteral_def)

theorem pattern_parser_fallback_witness:
  "parse noPythonWorld ''test_calc.py'' =
     [Node ''TestCalc'' 1 None ''class'' None ''TestCalc'' False False None [],
      Node ''test_add'' 2 None ''function'' None ''test_add'' False False None [],
      Node ''test_later'' 4 None ''function'' None ''test_later'' False True None []]
   \<and> parseWithRegex (noPythonWorld\<lparr>readFileSync := (\<lambda>p. None)\<rparr>) ''test_calc.py'' = []"
proof -
  let ?content = "''class TestCalc:''
        @ [CHR 0x0A] @ ''    def test_add(self):''
        @ [CHR 0x0A] @ ''        pass''
        @ [CHR 0x0A] @ ''async def test_later():''"
  have ex: "existsSync noPythonWorld ''test_calc.py''"
    by (simp add: noPythonWorld_def calcWorld_def)
  have fail: "\<forall>r. parsePythonFile_try noPythonWorld ''test_calc.py'' = Inr r \<longrightarrow> r = []"
    by (simp add: parsePythonFile_try_def noPythonWorld_def calcWorld_def)
  have unread: "readFileSync (noPythonWorld\<lparr>readFileSync := (\<lambda>p. None)\<rparr>) ''test_calc.py'' = None"
    by simp
  have none: "\<forall>c\<in>set ([] :: string). isSpace c" by simp
  have one: "'' '' \<noteq> []" by simp
  note shape1 = pattern_parser_fallback [of noPythonWorld "''test_calc.py''" ?content "[]" "'' ''" "'' ''"
            "''Calc''" "[]" 0 "[]", THEN conjunct2, THEN conjunct2, THEN conjunct2]
  from shape1 none one isSpace_one isWord_Calc
  have "scanLine 0 ([] @ ''class'' @ '' '' @ ''Test'' @ ''Calc'' @ [] @ '':'' @ [])
      = Some (Node (''Test'' @ ''Calc'') (int 0 + 1) None ''class'' None (''Test'' @ ''Calc'')
                         False False None [])"
    by blast
  then have l1: "scanLine 0 ''class TestCalc:''
      = Some (Node ''TestCalc'' 1 None ''class'' None ''TestCalc'' False False None [])"
    by simp
  note shape2 = pattern_parser_fallback [of noPythonWorld "''test_calc.py''" ?content "''    ''" "'' ''" "'' ''"
            "''add''" "[]" "Suc 0" "''self):''", THEN conjunct2, THEN conjunct2, THEN conjunct2]
  from shape2 none one isSpace_one isSpace_indent isWord_add
  have "scanLine (Suc 0) (''    '' @ ''def'' @ '' '' @ ''test_'' @ ''add'' @ [] @ ''('' @ ''self):'')
      = Some (Node (''test_'' @ ''add'') (int (Suc 0) + 1) None ''function'' None (''test_'' @ ''add'')
                         False False None [])"
    by blast
  then have l2: "scanLine (Suc 0) ''    def test_add(self):''
      = Some (Node ''test_add'' 2 None ''function'' None ''test_add'' False False None [])"
    by simp
  note shape4 = pattern_parser_fallback [of noPythonWorld "''test_calc.py''" ?content "[]" "'' ''" "'' ''"
            "''later''" "[]" "Suc (Suc (Suc 0))" "''):''", THEN conjunct2, THEN conjunct2, THEN conjunct2]
  from shape4 none one isSpace_one isWord_later
  have "scanLine (Suc (Suc (Suc 0))) ([] @ ''async'' @ '' '' @ ''def'' @ '' '' @ ''test_'' @ ''later'' @ [] @ ''('' @ ''):'')
      = Some (Node (''test_'' @ ''later'') (int (Suc (Suc (Suc 0))) + 1) None ''function'' None (''test_'' @ ''later'')
                         False True None [])"
    by blast
  then have l4: "scanLine (Suc (Suc (Suc 0))) ''async def test_later():''
      = Some (Node ''test_later'' 4 None ''function'' None ''test_later'' False True None [])"
    by simp
  note whole = pattern_parser_fallback [of noPythonWorld "''test_calc.py''" ?content]
  from whole [THEN conjunct1] ex isTestFile_sample fail
  have "parse noPythonWorld ''test_calc.py'' = parseWithRegex noPythonWorld ''test_calc.py''"
    by blast
  also from whole [THEN conjunct2, THEN conjunct2, THEN conjunct1] noPython_content
  have "\<dots> = List.map_filter (\<lambda>(i, ln). scanLine i ln) (enumerate 0 (split_char (CHR 0x0A) ?content))"
    by blast
  also have "\<dots> = scanLines 0 (split_char (CHR 0x0A) ?content)"
    by (simp only: scanLines_enumerate)
  also have "\<dots> = scanLines 0 [''class TestCalc:'', ''    def test_add(self):'', ''        pass'',
                               ''async def test_later():'']"
    by (simp only: noPython_lines)
  also have "\<dots> = [Node ''TestCalc'' 1 None ''class'' None ''TestCalc'' False False None [],
      Node ''test_add'' 2 None ''function'' None ''test_add'' False False None [],
      Node ''test_later'' 4 None ''function'' None ''test_later'' False True None []]"
    using l1 l2 l4 scanLine_pass [of "Suc (Suc 0)"] by simp
  finally have 1: "parse noPythonWorld ''test_calc.py'' =
     [Node ''TestCalc'' 1 None ''class'' None ''TestCalc'' False False None [],
      Node ''test_add'' 2 None ''function'' None ''test_add'' False False None [],
      Node ''test_later'' 4 None ''function'' None ''test_later'' False True None []]" .
  from pattern_parser_fallback [of "noPythonWorld\<lparr>readFileSync := (\<lambda>p. None)\<rparr>" "''test_calc.py''",
         THEN conjunct2, THEN conjunct1] unread
  have 2: "parseWithRegex (noPythonWorld\<lparr>readFileSync := (\<lambda>p. None)\<rparr>) ''test_calc.py'' = []"
    by blast
  from 1 2 show ?thesis by simp
qed

section \<open>Poetry project detection: properties\<close>


lemma startsWith_append: "startsWith (p @ s) p"
  by (induction p) auto

lemma render_append:
  "a \<noteq> [] \<Longrightarrow> render (a @ b) = render a @ concat (map (\<lambda>component. CHR ''/'' # component) b)"
  by (simp add: render_def)

lemma render_starts:
  "startsWith (render (butlast ws @ x # rel)) (render (butlast ws))"
proof (cases "butlast ws = []")
  case True
  then show ?thesis by (simp add: render_def)
next
  case False
  then have "render (butlast ws @ x # rel)
      = render (butlast ws) @ concat (map (\<lambda>component. CHR ''/'' # component) (x # rel))"
    by (rule render_append)
  then show ?thesis by (simp only: startsWith_append)
qed

lemma searchLoop_upward:
  "ws \<noteq> [] \<Longrightarrow>
   searchLoop callback (dirname ws) (ws @ below) =
     (case find (\<lambda>d. callback d \<noteq> None) (upwardDirs ws below) of
        None \<Rightarrow> None
      | Some d \<Rightarrow> callback d)"
proof (induction below rule: rev_induct)
  case Nil
  show ?case
    by (cases "callback ws")
       (simp_all add: upwardDirs_def searchLoop.simps [of callback "dirname ws" ws])
next
  case (snoc x below)
  have dn: "dirname (ws @ below @ [x]) = ws @ below" by (simp add: dirname_def butlast_append)
  have ne: "ws @ below \<noteq> dirname ws"
  proof
    assume "ws @ below = dirname ws"
    then have "length (ws @ below) = length (butlast ws)" by (simp add: dirname_def)
    then have "length ws + length below = length ws - 1" by simp
    moreover from snoc.prems have "0 < length ws" by simp
    ultimately show False by arith
  qed
  have up: "upwardDirs ws (below @ [x]) = (ws @ below @ [x]) # upwardDirs ws below"
    by (simp add: upwardDirs_def)
  show ?case
  proof (cases "callback (ws @ below @ [x])")
    case (Some r)
    then show ?thesis
      by (simp add: up searchLoop.simps [of callback "dirname ws" "ws @ below @ [x]"])
  next
    case None
    then have "searchLoop callback (dirname ws) (ws @ below @ [x])
                 = searchLoop callback (dirname ws) (ws @ below)"
      using dn ne by (simp add: searchLoop.simps [of callback "dirname ws" "ws @ below @ [x]"])
    with snoc.IH [OF snoc.prems] None show ?thesis by (simp add: up)
  qed
qed

lemma checkPoetryProject_self: "checkPoetryProject w d = Some r \<Longrightarrow> r = d"
  by (simp add: checkPoetryProject_def Let_def split: if_splits option.splits)

lemma find_checkPoetryProject:
  "(case find (\<lambda>d. checkPoetryProject w d \<noteq> None) ds of
      None \<Rightarrow> None
    | Some d \<Rightarrow> checkPoetryProject w d)
   = find (\<lambda>d. checkPoetryProject w d \<noteq> None) ds"
proof (cases "find (\<lambda>d. checkPoetryProject w d \<noteq> None) ds")
  case None
  then show ?thesis by simp
next
  case (Some d)
  then have "checkPoetryProject w d \<noteq> None" by (auto simp: find_Some_iff)
  then obtain r where r: "checkPoetryProject w d = Some r" by blast
  with checkPoetryProject_self have "r = d" by blast
  with Some r show ?thesis by simp
qed

lemma searchPathToParent_upward:
  assumes "ws \<noteq> []" and "statSyncIsDirectory w (render (ws @ below)) = Some True"
  shows "searchPathToParent w (ws @ below) ws (checkPoetryProject w)
           = Inr (find (\<lambda>d. checkPoetryProject w d \<noteq> None) (upwardDirs ws below))"
proof -
  from assms(1) have "butlast ws @ last ws # below = ws @ below" by simp
  then have "startsWith (render (ws @ below)) (render (butlast ws))"
    using render_starts [of ws "last ws" below] by (simp only:)
  then have "searchPathToParent w (ws @ below) ws (checkPoetryProject w)
      = Inr (searchLoop (checkPoetryProject w) (dirname ws) (ws @ below))"
    using assms(2) by (simp add: searchPathToParent_def dirname_def)
  then show ?thesis
    by (simp only: searchLoop_upward [OF assms(1)] find_checkPoetryProject)
qed

text \<open>
  C5 (as amended). Detection checks the workspace root first and returns it when it holds
  a \<open>pyproject.toml\<close> with the \<open>[tool.poetry]\<close> marker. Only when the workspace root
  does not match does it walk upward from the active file's directory to the workspace
  root, and then it returns the nearest directory on that walk that matches.
\<close>

theorem workspace_root_checked_first:
  "(checkPoetryProject w workspaceFolder \<noteq> None \<longrightarrow>
      getPoetryProjectRoot w activeFile workspaceFolder = Inr (Some workspaceFolder))
   \<and> (checkPoetryProject w workspaceFolder = None \<and> workspaceFolder \<noteq> []
        \<and> statSyncIsDirectory w (render (workspaceFolder @ below)) = Some True \<longrightarrow>
      getPoetryProjectRoot w (Some (workspaceFolder @ below @ [fileName])) workspaceFolder
        = Inr (find (\<lambda>d. checkPoetryProject w d \<noteq> None) (upwardDirs workspaceFolder below)))"
proof (intro conjI impI)
  assume "checkPoetryProject w workspaceFolder \<noteq> None"
  then obtain r where r: "checkPoetryProject w workspaceFolder = Some r" by blast
  with checkPoetryProject_self have "r = workspaceFolder" by blast
  with r show "getPoetryProjectRoot w activeFile workspaceFolder = Inr (Some workspaceFolder)"
    by (simp add: getPoetryProjectRoot_def)
next
  assume a: "checkPoetryProject w workspaceFolder = None \<and> workspaceFolder \<noteq> []
        \<and> statSyncIsDirectory w (render (workspaceFolder @ below)) = Some True"
  have "dirname (workspaceFolder @ below @ [fileName]) = workspaceFolder @ below"
    by (simp add: dirname_def butlast_append)
  with a have "getPoetryProjectRoot w (Some (workspaceFolder @ below @ [fileName])) workspaceFolder
      = searchPathToParent w (workspaceFolder @ below) workspaceFolder (checkPoetryProject w)"
    by (simp add: getPoetryProjectRoot_def)
  with a show "getPoetryProjectRoot w (Some (workspaceFolder @ below @ [fileName])) workspaceFolder
        = Inr (find (\<lambda>d. checkPoetryProject w d \<noteq> None) (upwardDirs workspaceFolder below))"
    by (simp add: searchPathToParent_upward)
qed

lemma poetry_ws: "checkPoetryProject poetryWorld [''ws''] = Some [''ws'']"
  by (simp add: checkPoetryProject_def render_def poetryWorld_def calcWorld_def)

lemma poetry_pkg: "checkPoetryProject poetryWorld [''ws'', ''pkg''] = Some [''ws'', ''pkg'']"
  by (simp add: checkPoetryProject_def render_def poetryWorld_def calcWorld_def)

lemma nested_ws: "checkPoetryProject nestedPoetryWorld [''ws''] = None"
  by (simp add: checkPoetryProject_def render_def nestedPoetryWorld_def poetryWorld_def calcWorld_def)

lemma nested_sub: "checkPoetryProject nestedPoetryWorld [''ws'', ''pkg'', ''sub''] = None"
  by (simp add: checkPoetryProject_def render_def nestedPoetryWorld_def poetryWorld_def calcWorld_def)

lemma nested_pkg: "checkPoetryProject nestedPoetryWorld [''ws'', ''pkg''] = Some [''ws'', ''pkg'']"
  by (simp add: checkPoetryProject_def render_def nestedPoetryWorld_def poetryWorld_def calcWorld_def)

theorem workspace_root_checked_first_witness:
  "getPoetryProjectRoot poetryWorld (Some [''ws'', ''pkg'', ''test_a.py'']) [''ws''] = Inr (Some [''ws''])
   \<and> getPoetryProjectRoot nestedPoetryWorld (Some [''ws'', ''pkg'', ''sub'', ''test_a.py'']) [''ws'']
       = Inr (Some [''ws'', ''pkg''])"
proof -
  have 1: "getPoetryProjectRoot poetryWorld (Some [''ws'', ''pkg'', ''test_a.py'']) [''ws'']
      = Inr (Some [''ws''])"
    using workspace_root_checked_first [of poetryWorld "[''ws'']" "Some [''ws'', ''pkg'', ''test_a.py'']",
            THEN conjunct1] poetry_ws
    by simp
  have dir: "statSyncIsDirectory nestedPoetryWorld (render ([''ws''] @ [''pkg'', ''sub''])) = Some True"
    by (simp add: nestedPoetryWorld_def poetryWorld_def calcWorld_def)
  have up: "upwardDirs [''ws''] [''pkg'', ''sub'']
      = [[''ws'', ''pkg'', ''sub''], [''ws'', ''pkg''], [''ws'']]"
    by (simp add: upwardDirs_def upt_rec)
  have "getPoetryProjectRoot nestedPoetryWorld (Some ([''ws''] @ [''pkg'', ''sub''] @ [''test_a.py''])) [''ws'']
      = Inr (find (\<lambda>d. checkPoetryProject nestedPoetryWorld d \<noteq> None)
               (upwardDirs [''ws''] [''pkg'', ''sub'']))"
    using workspace_root_checked_first [of nestedPoetryWorld "[''ws'']" _ "[''pkg'', ''sub'']" "''test_a.py''",
            THEN conjunct2] nested_ws dir
    by blast
  then have 2: "getPoetryProjectRoot nestedPoetryWorld (Some [''ws'', ''pkg'', ''sub'', ''test_a.py'']) [''ws'']
       = Inr (Some [''ws'', ''pkg''])"
    unfolding up using nested_sub nested_pkg by simp
  from 1 2 show ?thesis by simp
qed

text \<open>
  C5 as stated fails: with Poetry projects in \<open>/ws\<close> and in \<open>/ws/pkg\<close> and the
  active file in \<open>/ws/pkg\<close>, the workspace root \<open>/ws\<close> is returned, not the nearer
  \<open>/ws/pkg\<close>.
\<close>

theorem workspace_root_beats_nearer_project:
  "checkPoetryProject poetryWorld [''ws'', ''pkg''] = Some [''ws'', ''pkg'']
   \<and> dirname [''ws'', ''pkg'', ''test_a.py''] = [''ws'', ''pkg'']
   \<and> getPoetryProjectRoot poetryWorld (Some [''ws'', ''pkg'', ''test_a.py'']) [''ws'']
       = Inr (Some [''ws''])"
  by (simp add: poetry_pkg poetry_ws getPoetryProjectRoot_def dirname_def)

end
